theory Spec2Isabelle
  imports Complex_Main
begin

section \<open>The waypoint updater of \<^verbatim>\<open>ros/src/waypoint_updater/waypoint_updater.py\<close>\<close>

text \<open>
  The node keeps the latest vehicle pose, the base route, the index of the stop line and
  a nearest-neighbour index over the route's 2D positions. On every tick it publishes the
  next \<^verbatim>\<open>LOOKAHEAD_WPS\<close> route waypoints from the closest one, with their target speeds
  either taken over or replaced by a braking profile.

  Python floats are rendered as \<^typ>\<open>real\<close>: rounding is not part of the model. Every
  comparison the results below depend on (\<^verbatim>\<open>vel < 1.0\<close>, \<^verbatim>\<open>val > 0\<close>, \<^verbatim>\<open>min\<close>) is
  taken between the exact values.
\<close>

subsection \<open>Messages\<close>

text \<open>
  Modelled from the spec: the message classes \<^verbatim>\<open>Waypoint\<close>, \<^verbatim>\<open>Lane\<close> and
  \<^verbatim>\<open>PoseStamped\<close> (packages styx\_msgs and geometry\_msgs) are declared outside the
  source file. A waypoint is "a route point with a position, an orientation/pose, and a
  target speed"; the records keep the fields the source reads or writes:
  \<^verbatim>\<open>pose.pose.position.{x,y,z}\<close>, the orientation that travels with the pose, and
  \<^verbatim>\<open>twist.twist.linear.x\<close>. A \<^verbatim>\<open>Lane\<close> is identified with its \<^verbatim>\<open>waypoints\<close> list.
\<close>

record position =
  pos_x :: real
  pos_y :: real
  pos_z :: real

record pose_stamped =
  position :: position
  orientation :: "real \<times> real \<times> real \<times> real"

record waypoint =
  wp_pose :: pose_stamped
  twist_linear_x :: real

text \<open>\<^verbatim>\<open>Waypoint()\<close>: a message whose numeric fields are all zero.\<close>

definition Waypoint :: waypoint where
  "Waypoint =
     \<lparr>wp_pose = \<lparr>position = \<lparr>pos_x = 0, pos_y = 0, pos_z = 0\<rparr>, orientation = (0, 0, 0, 0)\<rparr>,
      twist_linear_x = 0\<rparr>"

subsection \<open>Python values: exceptions, indexing, slices\<close>

datatype error = AttributeError | TypeError | IndexError | ValueError

text \<open>\<^verbatim>\<open>xs[i]\<close>: a negative index counts from the end; out of range raises.\<close>

definition py_get :: "'a list \<Rightarrow> int \<Rightarrow> error + 'a" where
  "py_get xs i =
     (if 0 \<le> i \<and> i < int (length xs) then Inr (xs ! nat i)
      else if i < 0 \<and> - int (length xs) \<le> i then Inr (xs ! nat (int (length xs) + i))
      else Inl IndexError)"

text \<open>\<^verbatim>\<open>xs[a:b]\<close> for non-negative bounds: never raises, the slice is cut at the end of the list.\<close>

definition py_slice :: "'a list \<Rightarrow> nat \<Rightarrow> nat \<Rightarrow> 'a list" where
  "py_slice xs a b = take (b - a) (drop a xs)"

text \<open>\<^verbatim>\<open>math.sqrt\<close>: a negative argument raises \<^verbatim>\<open>ValueError\<close> (math domain error).\<close>

definition py_sqrt :: "real \<Rightarrow> error + real" where
  "py_sqrt r = (if r < 0 then Inl ValueError else Inr (sqrt r))"

subsection \<open>Module constants\<close>

text \<open>
  \<^verbatim>\<open>CONSTANT_DECEL = 1 / LOOKAHEAD_WPS\<close> divides two integers. The file starts
  \<^verbatim>\<open>#!/usr/bin/env python\<close> and has no \<^verbatim>\<open>from __future__ import division\<close>: under
  Python 2 the quotient is the integer \<open>0\<close>, under Python 3 the float \<open>0.01\<close>. The
  interpreter is a parameter of the model, and the results below hold for both.
\<close>

datatype interpreter = Python2 | Python3

definition LOOKAHEAD_WPS :: nat where
  "LOOKAHEAD_WPS = 100"

definition MAX_DECEL :: real where
  "MAX_DECEL = 0.5"

definition CONSTANT_DECEL :: "interpreter \<Rightarrow> real" where
  "CONSTANT_DECEL ip =
     (case ip of
        Python2 \<Rightarrow> real (1 div LOOKAHEAD_WPS)
      | Python3 \<Rightarrow> 1 / real LOOKAHEAD_WPS)"

definition STOP_LINE_MARGIN :: int where
  "STOP_LINE_MARGIN = 4"

subsection \<open>The nearest-neighbour index\<close>

text \<open>
  \<^verbatim>\<open>scipy.spatial.KDTree\<close> is a library class. The model keeps the points the tree was
  built from; \<^verbatim>\<open>query(p, 1)[1]\<close> is the index of a point at least Euclidean distance
  from \<open>p\<close>, here the first such index. Building a tree from no points raises (the
  constructor unpacks the shape of the data into two dimensions).
\<close>

type_synonym point2 = "real \<times> real"

datatype kdtree = Tree "point2 list"

definition KDTree :: "point2 list \<Rightarrow> error + kdtree" where
  "KDTree pts = (if pts = [] then Inl ValueError else Inr (Tree pts))"

definition euclid2 :: "point2 \<Rightarrow> point2 \<Rightarrow> real" where
  "euclid2 p q = sqrt ((fst p - fst q)\<^sup>2 + (snd p - snd q)\<^sup>2)"

fun argmin :: "real list \<Rightarrow> nat" where
  "argmin [] = 0"
| "argmin [d] = 0"
| "argmin (d # ds) = (let j = argmin ds in if d \<le> ds ! j then 0 else Suc j)"

fun query :: "kdtree \<Rightarrow> point2 \<Rightarrow> nat" where
  "query (Tree pts) p = argmin (map (euclid2 p) pts)"

text \<open>\<^verbatim>\<open>np.dot\<close> of two 2-vectors, and the difference of two \<^verbatim>\<open>np.array\<close>s.\<close>

definition np_dot :: "point2 \<Rightarrow> point2 \<Rightarrow> real" where
  "np_dot u v = fst u * fst v + snd u * snd v"

definition np_sub :: "point2 \<Rightarrow> point2 \<Rightarrow> point2" where
  "np_sub u v = (fst u - fst v, snd u - snd v)"

subsection \<open>The node's state and its callbacks\<close>

text \<open>
  The fields of \<^verbatim>\<open>self\<close> set in \<^verbatim>\<open>__init__\<close>. The record is polymorphic in what the
  base lane holds: waypoint values, or references to waypoint objects in a store (below).
\<close>

record 'w updater =
  base_lane :: "'w list option"
  pose :: "pose_stamped option"
  stopline_wp_index :: int
  waypoints_2d :: "point2 list option"
  waypoint_tree :: "kdtree option"

definition init :: "'w updater" where
  "init = \<lparr>base_lane = None, pose = None, stopline_wp_index = -1,
           waypoints_2d = None, waypoint_tree = None\<rparr>"

definition pose_cb :: "'w updater \<Rightarrow> pose_stamped \<Rightarrow> 'w updater" where
  "pose_cb s msg = s\<lparr>pose := Some msg\<rparr>"

definition traffic_cb :: "'w updater \<Rightarrow> int \<Rightarrow> 'w updater" where
  "traffic_cb s msg_data = s\<lparr>stopline_wp_index := msg_data\<rparr>"

text \<open>The pair \<^verbatim>\<open>[waypoint.pose.pose.position.x, waypoint.pose.pose.position.y]\<close>.\<close>

definition xy :: "waypoint \<Rightarrow> point2" where
  "xy w = (pos_x (position (wp_pose w)), pos_y (position (wp_pose w)))"

text \<open>\<^verbatim>\<open>not self.waypoints_2d\<close>: true of \<^verbatim>\<open>None\<close> and of the empty list.\<close>

definition not_waypoints_2d :: "point2 list option \<Rightarrow> bool" where
  "not_waypoints_2d w = (case w of None \<Rightarrow> True | Some pts \<Rightarrow> pts = [])"

text \<open>
  \<^verbatim>\<open>waypoints_cb\<close> returns the state it leaves behind and the exception it raised, if
  any: the assignments before a raising \<^verbatim>\<open>KDTree\<close> call have taken place.
\<close>

definition waypoints_cb :: "waypoint updater \<Rightarrow> waypoint list \<Rightarrow> waypoint updater \<times> error option" where
  "waypoints_cb s waypoints =
     (let s1 = s\<lparr>base_lane := Some waypoints\<rparr>
      in if not_waypoints_2d (waypoints_2d s1) then
           (let pts = map xy waypoints;
                s2 = s1\<lparr>waypoints_2d := Some pts\<rparr>
            in case KDTree pts of
                 Inl e \<Rightarrow> (s2, Some e)
               | Inr t \<Rightarrow> (s2\<lparr>waypoint_tree := Some t\<rparr>, None))
         else (s1, None))"

subsection \<open>The closest waypoint ahead\<close>

definition get_closest_waypoint_index :: "'w updater \<Rightarrow> error + nat" where
  "get_closest_waypoint_index s =
     (case pose s of None \<Rightarrow> Inl AttributeError | Some ps \<Rightarrow>
      let x = pos_x (position ps); y = pos_y (position ps) in
      case waypoint_tree s of None \<Rightarrow> Inl AttributeError | Some tree \<Rightarrow>
      let closest_index = query tree (x, y) in
      case waypoints_2d s of None \<Rightarrow> Inl TypeError | Some pts \<Rightarrow>
      case py_get pts (int closest_index) of Inl e \<Rightarrow> Inl e | Inr closest_coord \<Rightarrow>
      case py_get pts (int closest_index - 1) of Inl e \<Rightarrow> Inl e | Inr prev_coord \<Rightarrow>
      let dotval = np_dot (np_sub closest_coord prev_coord) (np_sub (x, y) closest_coord) in
      if dotval > 0 then Inr ((closest_index + 1) mod length pts) else Inr closest_index)"

subsection \<open>Chain distance and the braking profile\<close>

definition dl :: "position \<Rightarrow> position \<Rightarrow> real" where
  "dl a b = sqrt ((pos_x a - pos_x b)\<^sup>2 + (pos_y a - pos_y b)\<^sup>2 + (pos_z a - pos_z b)\<^sup>2)"

text \<open>
  The loop of \<^verbatim>\<open>distance\<close> over the rest of \<^verbatim>\<open>range(wp1, wp2+1)\<close>, with the running
  \<^verbatim>\<open>dist\<close> (written \<open>dist'\<close>: \<open>dist\<close> is the metric of the library) and the re-anchored \<^verbatim>\<open>wp1\<close>.
\<close>

fun distance_loop :: "waypoint list \<Rightarrow> int list \<Rightarrow> real \<Rightarrow> int \<Rightarrow> error + real" where
  "distance_loop waypoints [] dist' wp1 = Inr dist'"
| "distance_loop waypoints (i # is) dist' wp1 =
     (case py_get waypoints wp1 of Inl e \<Rightarrow> Inl e | Inr a \<Rightarrow>
      case py_get waypoints i of Inl e \<Rightarrow> Inl e | Inr b \<Rightarrow>
      distance_loop waypoints is (dist' + dl (position (wp_pose a)) (position (wp_pose b))) i)"

definition distance :: "waypoint list \<Rightarrow> int \<Rightarrow> int \<Rightarrow> error + real" where
  "distance waypoints wp1 wp2 = distance_loop waypoints [wp1..wp2] 0 wp1"

text \<open>
  The loop of \<^verbatim>\<open>decelerate_waypoints\<close> over the rest of \<^verbatim>\<open>enumerate(waypoints)\<close>, with
  the list \<^verbatim>\<open>res\<close> built so far. An exception of \<^verbatim>\<open>distance\<close> ends the call.
\<close>

fun decelerate_loop ::
  "interpreter \<Rightarrow> int \<Rightarrow> waypoint list \<Rightarrow> nat \<Rightarrow> (nat \<times> waypoint) list \<Rightarrow> waypoint list \<Rightarrow> error + waypoint list" where
  "decelerate_loop ip stopline waypoints closest_index [] res = Inr res"
| "decelerate_loop ip stopline waypoints closest_index ((i, wp) # rest) res =
     (let p = Waypoint\<lparr>wp_pose := wp_pose wp\<rparr>;
          stop_index = max (stopline - int closest_index - STOP_LINE_MARGIN) 0
      in case distance waypoints (int i) stop_index of Inl e \<Rightarrow> Inl e | Inr dist' \<Rightarrow>
         case py_sqrt (2 * MAX_DECEL * dist') of Inl e \<Rightarrow> Inl e | Inr r \<Rightarrow>
         let vel = r + real i * CONSTANT_DECEL ip;
             vel = (if vel < 1.0 then 0.0 else vel);
             p = p\<lparr>twist_linear_x := min vel (twist_linear_x wp)\<rparr>
         in decelerate_loop ip stopline waypoints closest_index rest (res @ [p]))"

definition decelerate_waypoints ::
  "interpreter \<Rightarrow> waypoint updater \<Rightarrow> waypoint list \<Rightarrow> nat \<Rightarrow> error + waypoint list" where
  "decelerate_waypoints ip s waypoints closest_index =
     decelerate_loop ip (stopline_wp_index s) waypoints closest_index (enumerate 0 waypoints) []"

subsection \<open>One tick\<close>

definition generate_lane :: "interpreter \<Rightarrow> waypoint updater \<Rightarrow> error + waypoint list" where
  "generate_lane ip s =
     (case get_closest_waypoint_index s of Inl e \<Rightarrow> Inl e | Inr closest_index \<Rightarrow>
      let farthest_index = closest_index + LOOKAHEAD_WPS in
      case base_lane s of None \<Rightarrow> Inl AttributeError | Some lane \<Rightarrow>
      let base_waypoints = py_slice lane closest_index farthest_index in
      if stopline_wp_index s = -1 \<or> stopline_wp_index s \<ge> int farthest_index
      then Inr base_waypoints
      else decelerate_waypoints ip s base_waypoints closest_index)"

subsection \<open>The same tick over a store of waypoint objects\<close>

text \<open>
  Python lists hold references. To speak about which objects a tick writes, the waypoint
  objects live in a store, addressed by their position in it; \<^verbatim>\<open>Waypoint()\<close> allocates
  the next address. The base lane of the state is then a list of addresses. The pose
  travels by value: \<^verbatim>\<open>p.pose = wp.pose\<close> shares the pose object, and no statement of the
  file writes into a pose.
\<close>

type_synonym ref = nat

type_synonym store = "waypoint list"

definition new_Waypoint :: "store \<Rightarrow> ref \<times> store" where
  "new_Waypoint h = (length h, h @ [Waypoint])"

definition deref :: "store \<Rightarrow> ref list \<Rightarrow> waypoint list" where
  "deref h rs = map (\<lambda>r. h ! r) rs"

fun decelerate_loop_obj ::
  "interpreter \<Rightarrow> int \<Rightarrow> ref list \<Rightarrow> nat \<Rightarrow> (nat \<times> ref) list \<Rightarrow> ref list \<Rightarrow> store \<Rightarrow>
   (error + ref list) \<times> store" where
  "decelerate_loop_obj ip stopline waypoints closest_index [] res h = (Inr res, h)"
| "decelerate_loop_obj ip stopline waypoints closest_index ((i, wp) # rest) res h =
     (let (p, h) = new_Waypoint h;
          h = h[p := (h ! p)\<lparr>wp_pose := wp_pose (h ! wp)\<rparr>];
          stop_index = max (stopline - int closest_index - STOP_LINE_MARGIN) 0
      in case distance (deref h waypoints) (int i) stop_index of Inl e \<Rightarrow> (Inl e, h) | Inr dist' \<Rightarrow>
         case py_sqrt (2 * MAX_DECEL * dist') of Inl e \<Rightarrow> (Inl e, h) | Inr r \<Rightarrow>
         let vel = r + real i * CONSTANT_DECEL ip;
             vel = (if vel < 1.0 then 0.0 else vel);
             h = h[p := (h ! p)\<lparr>twist_linear_x := min vel (twist_linear_x (h ! wp))\<rparr>]
         in decelerate_loop_obj ip stopline waypoints closest_index rest (res @ [p]) h)"

definition decelerate_waypoints_obj ::
  "interpreter \<Rightarrow> ref updater \<Rightarrow> ref list \<Rightarrow> nat \<Rightarrow> store \<Rightarrow> (error + ref list) \<times> store" where
  "decelerate_waypoints_obj ip s waypoints closest_index h =
     decelerate_loop_obj ip (stopline_wp_index s) waypoints closest_index (enumerate 0 waypoints) [] h"

definition generate_lane_obj :: "interpreter \<Rightarrow> ref updater \<Rightarrow> store \<Rightarrow> (error + ref list) \<times> store" where
  "generate_lane_obj ip s h =
     (case get_closest_waypoint_index s of Inl e \<Rightarrow> (Inl e, h) | Inr closest_index \<Rightarrow>
      let farthest_index = closest_index + LOOKAHEAD_WPS in
      case base_lane s of None \<Rightarrow> (Inl AttributeError, h) | Some lane \<Rightarrow>
      let base_waypoints = py_slice lane closest_index farthest_index in
      if stopline_wp_index s = -1 \<or> stopline_wp_index s \<ge> int farthest_index
      then (Inr base_waypoints, h)
      else decelerate_waypoints_obj ip s base_waypoints closest_index h)"

text \<open>The state over waypoint values that a state over references stands for.\<close>

definition state_of :: "store \<Rightarrow> ref updater \<Rightarrow> waypoint updater" where
  "state_of h s =
     \<lparr>base_lane = map_option (deref h) (base_lane s), pose = pose s,
      stopline_wp_index = stopline_wp_index s, waypoints_2d = waypoints_2d s,
      waypoint_tree = waypoint_tree s\<rparr>"

subsection \<open>The specification's vocabulary\<close>

text \<open>
  The stop offset, the chain distance along a slice (the sum of the Euclidean distances
  between consecutive waypoints from index \<open>a\<close> up to index \<open>b\<close>, an empty sum when
  \<open>b \<le> a\<close>), the snap to zero below the creep threshold, and the speed of the braking
  profile, written after the specification for comparison with the loops above.
\<close>

definition stop_offset :: "int \<Rightarrow> nat \<Rightarrow> nat" where
  "stop_offset stopline closest = nat (max (stopline - int closest - STOP_LINE_MARGIN) 0)"

definition seg :: "waypoint list \<Rightarrow> nat \<Rightarrow> nat \<Rightarrow> real" where
  "seg waypoints j k = dl (position (wp_pose (waypoints ! j))) (position (wp_pose (waypoints ! k)))"

definition chain_distance :: "waypoint list \<Rightarrow> nat \<Rightarrow> nat \<Rightarrow> real" where
  "chain_distance waypoints a b = (\<Sum>k = a..<b. seg waypoints k (Suc k))"

definition snap :: "real \<Rightarrow> real" where
  "snap v = (if v < 1 then 0 else v)"

definition profile_velocity :: "interpreter \<Rightarrow> waypoint list \<Rightarrow> nat \<Rightarrow> nat \<Rightarrow> real" where
  "profile_velocity ip waypoints so i =
     sqrt (2 * MAX_DECEL * chain_distance waypoints i so) + real i * CONSTANT_DECEL ip"

definition profile_speed :: "interpreter \<Rightarrow> waypoint list \<Rightarrow> nat \<Rightarrow> nat \<Rightarrow> real" where
  "profile_speed ip waypoints so i =
     min (snap (profile_velocity ip waypoints so i)) (twist_linear_x (waypoints ! i))"

definition decelerated :: "interpreter \<Rightarrow> waypoint list \<Rightarrow> nat \<Rightarrow> nat \<Rightarrow> waypoint" where
  "decelerated ip waypoints so i =
     \<lparr>wp_pose = wp_pose (waypoints ! i), twist_linear_x = profile_speed ip waypoints so i\<rparr>"

subsection \<open>Example routes and states\<close>

definition pose_at :: "real \<Rightarrow> real \<Rightarrow> pose_stamped" where
  "pose_at a b = \<lparr>position = \<lparr>pos_x = a, pos_y = b, pos_z = 0\<rparr>, orientation = (0, 0, 0, 1)\<rparr>"

definition wp_at :: "real \<Rightarrow> real \<Rightarrow> waypoint" where
  "wp_at a v = \<lparr>wp_pose = pose_at a 0, twist_linear_x = v\<rparr>"

text \<open>Ten waypoints one unit apart on the x axis, each with base speed 5.\<close>

definition route10 :: "waypoint list" where
  "route10 = [wp_at 0 5, wp_at 1 5, wp_at 2 5, wp_at 3 5, wp_at 4 5,
              wp_at 5 5, wp_at 6 5, wp_at 7 5, wp_at 8 5, wp_at 9 5]"

text \<open>A longer straight route, of 120 waypoints one unit apart.\<close>

definition route120 :: "waypoint list" where
  "route120 = map (\<lambda>k. wp_at (real k) 5) [0..<120]"

text \<open>The node after the route, a pose on the x axis and a stop index have arrived.\<close>

definition node :: "waypoint list \<Rightarrow> real \<Rightarrow> int \<Rightarrow> waypoint updater" where
  "node route a stopline = traffic_cb (pose_cb (fst (waypoints_cb init route)) (pose_at a 0)) stopline"

text \<open>The same node over a store: the base lane is a list of references into it.\<close>

definition node_obj :: "store \<Rightarrow> ref list \<Rightarrow> real \<Rightarrow> int \<Rightarrow> ref updater" where
  "node_obj h lane a stopline =
     \<lparr>base_lane = Some lane, pose = Some (pose_at a 0), stopline_wp_index = stopline,
      waypoints_2d = Some (map xy (deref h lane)),
      waypoint_tree = Some (Tree (map xy (deref h lane)))\<rparr>"

section \<open>Properties\<close>

subsection \<open>The chain distance\<close>

lemma py_get_in_range: "0 \<le> i \<Longrightarrow> nat i < length xs \<Longrightarrow> py_get xs i = Inr (xs ! nat i)"
  by (simp add: py_get_def)

lemma dl_self: "dl a a = 0"
  by (simp add: dl_def)

lemma dl_nonneg: "0 \<le> dl a b"
  by (simp add: dl_def)

lemma seg_self: "seg waypoints j j = 0"
  by (simp add: seg_def dl_self)

lemma chain_distance_nonneg: "0 \<le> chain_distance waypoints a b"
  by (simp add: chain_distance_def seg_def dl_nonneg sum_nonneg)

lemma chain_distance_empty: "b \<le> a \<Longrightarrow> chain_distance waypoints a b = 0"
  by (simp add: chain_distance_def)

lemma upto_step: "i \<le> b \<Longrightarrow> [int i..int b] = int i # [int (Suc i)..int b]"
  using upto_rec1[of "int i" "int b"] by (simp add: add.commute)

lemma distance_loop_ok:
  "wp1 < length waypoints \<Longrightarrow> b < length waypoints \<Longrightarrow>
   distance_loop waypoints [int i..int b] d (int wp1) =
     Inr (d + (if i \<le> b then seg waypoints wp1 i + chain_distance waypoints i b else 0))"
proof (induction "Suc b - i" arbitrary: i d wp1)
  case 0
  then show ?case by simp
next
  case (Suc n)
  then have ib: "i \<le> b" by linarith
  then have up: "[int i..int b] = int i # [int (Suc i)..int b]"
    by (rule upto_step)
  have in1: "py_get waypoints (int wp1) = Inr (waypoints ! wp1)"
    using Suc.prems by (simp add: py_get_in_range)
  have in2: "py_get waypoints (int i) = Inr (waypoints ! i)"
    using Suc.prems ib by (simp add: py_get_in_range)
  have step: "distance_loop waypoints [int (Suc i)..int b] (d + seg waypoints wp1 i) (int i) =
     Inr (d + seg waypoints wp1 i + (if Suc i \<le> b then seg waypoints i (Suc i) + chain_distance waypoints (Suc i) b else 0))"
    using Suc.hyps(1)[of "Suc i" i "d + seg waypoints wp1 i"] Suc.hyps(2) Suc.prems ib by simp
  have cd: "chain_distance waypoints i b = (if Suc i \<le> b then seg waypoints i (Suc i) + chain_distance waypoints (Suc i) b else 0)"
    using ib by (auto simp: chain_distance_def sum.atLeast_Suc_lessThan not_less_eq_eq)
  show ?case
    using ib step cd by (simp add: up in1 in2 seg_def)
qed

lemma distance_loop_fail:
  "wp1 < length waypoints \<Longrightarrow> i \<le> b \<Longrightarrow> length waypoints \<le> b \<Longrightarrow>
   distance_loop waypoints [int i..int b] d (int wp1) = Inl IndexError"
proof (induction "Suc b - i" arbitrary: i d wp1)
  case 0
  then show ?case by simp
next
  case (Suc n)
  then have up: "[int i..int b] = int i # [int (Suc i)..int b]"
    by (simp add: upto_step)
  have in1: "py_get waypoints (int wp1) = Inr (waypoints ! wp1)"
    using Suc.prems by (simp add: py_get_in_range)
  show ?case
  proof (cases "i < length waypoints")
    case True
    then have in2: "py_get waypoints (int i) = Inr (waypoints ! i)"
      by (simp add: py_get_in_range)
    from True Suc.prems have "Suc i \<le> b" by linarith
    then have "distance_loop waypoints [int (Suc i)..int b] (d + seg waypoints wp1 i) (int i) = Inl IndexError"
      using Suc.hyps(1)[of "Suc i" i "d + seg waypoints wp1 i"] Suc.hyps(2) Suc.prems True by simp
    then show ?thesis by (simp add: up in1 in2 seg_def)
  next
    case False
    then have "py_get waypoints (int i) = Inl IndexError"
      by (simp add: py_get_def Let_def)
    then show ?thesis by (simp add: up in1)
  qed
qed

lemma distance_empty_range: "wp2 < wp1 \<Longrightarrow> distance waypoints wp1 wp2 = Inr 0"
  by (simp add: distance_def)

lemma distance_ok:
  "a < length waypoints \<Longrightarrow> b < length waypoints \<Longrightarrow>
   distance waypoints (int a) (int b) = Inr (chain_distance waypoints a b)"
  using distance_loop_ok[of a waypoints b a 0]
  by (simp add: distance_def seg_self chain_distance_empty)

lemma distance_fail:
  "a < length waypoints \<Longrightarrow> length waypoints \<le> b \<Longrightarrow>
   distance waypoints (int a) (int b) = Inl IndexError"
  using distance_loop_fail[of a waypoints a b 0]
  by (simp add: distance_def)

subsection \<open>The braking loop\<close>

lemma max_decel_nonneg: "0 \<le> 2 * MAX_DECEL * chain_distance waypoints a b"
  using chain_distance_nonneg[of waypoints a b] by (simp add: MAX_DECEL_def)

lemma decelerate_step:
  assumes "i < length waypoints" "stop_offset stopline closest_index < length waypoints"
  shows "decelerate_loop ip stopline waypoints closest_index ((i, waypoints ! i) # rest) res =
         decelerate_loop ip stopline waypoints closest_index rest
           (res @ [decelerated ip waypoints (stop_offset stopline closest_index) i])"
proof -
  let ?so = "stop_offset stopline closest_index"
  have so: "max (stopline - int closest_index - STOP_LINE_MARGIN) 0 = int ?so"
    by (simp add: stop_offset_def)
  have d: "distance waypoints (int i) (int ?so) = Inr (chain_distance waypoints i ?so)"
    using assms by (rule distance_ok)
  have r: "py_sqrt (2 * MAX_DECEL * chain_distance waypoints i ?so) =
           Inr (sqrt (2 * MAX_DECEL * chain_distance waypoints i ?so))"
    using max_decel_nonneg[of waypoints i ?so] by (simp add: py_sqrt_def)
  show ?thesis
    by (simp add: so d r Let_def decelerated_def profile_speed_def profile_velocity_def
        snap_def Waypoint_def)
qed

lemma decelerate_loop_ok:
  assumes "stop_offset stopline closest_index < length waypoints"
    and "\<forall>e \<in> set es. fst e < length waypoints \<and> snd e = waypoints ! fst e"
  shows "decelerate_loop ip stopline waypoints closest_index es res =
         Inr (res @ map (\<lambda>e. decelerated ip waypoints (stop_offset stopline closest_index) (fst e)) es)"
  using assms(2)
proof (induction es arbitrary: res)
  case Nil
  then show ?case by simp
next
  case (Cons e es)
  obtain i wp where e: "e = (i, wp)" by (cases e)
  with Cons.prems have i: "i < length waypoints" and wp: "wp = waypoints ! i" by auto
  have "decelerate_loop ip stopline waypoints closest_index (e # es) res =
        decelerate_loop ip stopline waypoints closest_index es
          (res @ [decelerated ip waypoints (stop_offset stopline closest_index) i])"
    unfolding e wp using i assms(1) by (rule decelerate_step)
  also have "\<dots> = Inr ((res @ [decelerated ip waypoints (stop_offset stopline closest_index) i]) @
       map (\<lambda>e. decelerated ip waypoints (stop_offset stopline closest_index) (fst e)) es)"
    using Cons.prems by (intro Cons.IH) simp
  finally show ?case by (simp add: e)
qed

lemma enumerate_nth: "\<forall>e \<in> set (enumerate 0 xs). fst e < length xs \<and> snd e = xs ! fst e"
  by (auto simp: enumerate_eq_zip in_set_zip)

lemma map_enumerate_fst: "map (\<lambda>e. f (fst e)) (enumerate 0 xs) = map f [0..<length xs]"
proof -
  have "map f [0..<length xs] = map f (map fst (enumerate 0 xs))"
    by simp
  also have "\<dots> = map (\<lambda>e. f (fst e)) (enumerate 0 xs)"
    by (simp only: map_map comp_def)
  finally show ?thesis by (rule sym)
qed

lemma decelerate_waypoints_ok:
  assumes "stop_offset (stopline_wp_index s) closest_index < length waypoints"
  shows "decelerate_waypoints ip s waypoints closest_index =
         Inr (map (decelerated ip waypoints (stop_offset (stopline_wp_index s) closest_index))
                [0..<length waypoints])"
proof -
  have "decelerate_waypoints ip s waypoints closest_index =
        Inr ([] @ map (\<lambda>e. decelerated ip waypoints (stop_offset (stopline_wp_index s) closest_index) (fst e))
               (enumerate 0 waypoints))"
    unfolding decelerate_waypoints_def using assms enumerate_nth by (rule decelerate_loop_ok)
  then show ?thesis
    by (simp only: map_enumerate_fst append_Nil)
qed

lemma decelerate_waypoints_empty: "decelerate_waypoints ip s [] closest_index = Inr []"
  by (simp add: decelerate_waypoints_def)

lemma decelerate_step_fail:
  assumes "i < length waypoints" "length waypoints \<le> stop_offset stopline closest_index"
  shows "decelerate_loop ip stopline waypoints closest_index ((i, wp) # rest) res = Inl IndexError"
proof -
  have so: "max (stopline - int closest_index - STOP_LINE_MARGIN) 0 =
            int (stop_offset stopline closest_index)"
    by (simp add: stop_offset_def)
  have d: "distance waypoints (int i) (int (stop_offset stopline closest_index)) = Inl IndexError"
    using assms by (rule distance_fail)
  show ?thesis
    by (simp add: so d Let_def)
qed

lemma decelerate_waypoints_fail:
  assumes "waypoints \<noteq> []" "length waypoints \<le> stop_offset (stopline_wp_index s) closest_index"
  shows "decelerate_waypoints ip s waypoints closest_index = Inl IndexError"
proof -
  obtain w ws where w: "waypoints = w # ws" using assms(1) by (cases waypoints) auto
  have e: "enumerate 0 waypoints = (0, w) # enumerate 1 ws"
    by (simp add: w)
  have "0 < length waypoints" by (simp add: w)
  then show ?thesis
    unfolding decelerate_waypoints_def e using assms(2) by (rule decelerate_step_fail)
qed

subsection \<open>The profile and the tick\<close>

lemma constant_decel_bounds: "0 \<le> CONSTANT_DECEL ip" "CONSTANT_DECEL ip \<le> 1 / 100"
  by (cases ip; simp add: CONSTANT_DECEL_def LOOKAHEAD_WPS_def)+

lemma creep_below_one:
  assumes "i < LOOKAHEAD_WPS"
  shows "real i * CONSTANT_DECEL ip < 1"
proof -
  have "real i * CONSTANT_DECEL ip \<le> real i * (1 / 100)"
    using constant_decel_bounds(2)[of ip] by (intro mult_left_mono) simp_all
  also have "\<dots> < 1"
    using assms by (simp add: LOOKAHEAD_WPS_def)
  finally show ?thesis .
qed

lemma profile_speed_past_stop:
  assumes "so \<le> i"
  shows "profile_speed ip waypoints so i =
         min (snap (sqrt (2 * MAX_DECEL * 0) + real i * CONSTANT_DECEL ip)) (twist_linear_x (waypoints ! i))"
  using assms by (simp add: profile_speed_def profile_velocity_def chain_distance_empty)

lemma profile_speed_zero:
  assumes "so \<le> i" "i < LOOKAHEAD_WPS" "0 \<le> twist_linear_x (waypoints ! i)"
  shows "profile_speed ip waypoints so i = 0"
  using assms creep_below_one[of i ip]
  by (simp add: profile_speed_past_stop snap_def)

lemma profile_speed_le: "profile_speed ip waypoints so i \<le> twist_linear_x (waypoints ! i)"
  by (simp add: profile_speed_def)

lemma decelerate_waypoints_cases:
  "decelerate_waypoints ip s waypoints closest_index =
     (if waypoints = [] then Inr []
      else if stop_offset (stopline_wp_index s) closest_index < length waypoints
      then Inr (map (decelerated ip waypoints (stop_offset (stopline_wp_index s) closest_index))
                  [0..<length waypoints])
      else Inl IndexError)"
  by (simp add: decelerate_waypoints_empty decelerate_waypoints_ok decelerate_waypoints_fail)

lemma decelerate_waypoints_Inr:
  assumes "decelerate_waypoints ip s waypoints closest_index = Inr out"
  shows "length out = length waypoints"
    and "i < length waypoints \<Longrightarrow>
         out ! i = decelerated ip waypoints (stop_offset (stopline_wp_index s) closest_index) i"
    and "waypoints \<noteq> [] \<Longrightarrow> stop_offset (stopline_wp_index s) closest_index < length waypoints"
  using assms by (auto simp: decelerate_waypoints_cases split: if_splits)

lemma generate_lane_cases:
  assumes "get_closest_waypoint_index s = Inr c" "base_lane s = Some lane"
  shows "generate_lane ip s =
     (if stopline_wp_index s = -1 \<or> int (c + LOOKAHEAD_WPS) \<le> stopline_wp_index s
      then Inr (take LOOKAHEAD_WPS (drop c lane))
      else decelerate_waypoints ip s (take LOOKAHEAD_WPS (drop c lane)) c)"
  using assms by (simp add: generate_lane_def py_slice_def Let_def)

subsection \<open>Facts about the example route\<close>

lemma route10_length: "length route10 = 10"
  by (simp add: route10_def)

lemma dl_wp_at: "dl (position (wp_pose (wp_at a v))) (position (wp_pose (wp_at b w))) = \<bar>a - b\<bar>"
  by (simp add: dl_def wp_at_def pose_at_def)

subsection \<open>The closest index\<close>

lemma argmin_less: "ds \<noteq> [] \<Longrightarrow> argmin ds < length ds"
  by (induction ds rule: argmin.induct) (auto simp: Let_def)

lemma argmin_least: "k < length ds \<Longrightarrow> ds ! argmin ds \<le> ds ! k"
proof (induction ds arbitrary: k rule: argmin.induct)
  case 1
  then show ?case by simp
next
  case (2 d)
  then show ?case by simp
next
  case (3 d e es)
  show ?case
  proof (cases k)
    case 0
    then show ?thesis by (auto simp: Let_def)
  next
    case (Suc j)
    with 3 have "(e # es) ! argmin (e # es) \<le> (e # es) ! j" by simp
    then show ?thesis using Suc by (auto simp: Let_def)
  qed
qed

lemma argmin_first: "k < argmin ds \<Longrightarrow> ds ! argmin ds < ds ! k"
proof (induction ds arbitrary: k rule: argmin.induct)
  case 1
  then show ?case by simp
next
  case (2 d)
  then show ?case by simp
next
  case (3 d e es)
  let ?j = "argmin (e # es)"
  from "3.prems" have nz: "\<not> d \<le> (e # es) ! ?j" and am: "argmin (d # e # es) = Suc ?j"
    by (auto simp: Let_def split: if_splits)
  show ?case
  proof (cases k)
    case 0
    then show ?thesis using nz am by simp
  next
    case (Suc j)
    with "3.prems" am have "j < ?j" by simp
    then have "(e # es) ! ?j < (e # es) ! j" by (rule "3.IH")
    then show ?thesis using Suc am by simp
  qed
qed

lemma py_get_prev:
  assumes "c < length xs"
  shows "py_get xs (int c - 1) = Inr (xs ! ((c + length xs - 1) mod length xs))"
proof (cases c)
  case 0
  have "nat (int (length xs) - 1) = length xs - 1"
    by (simp add: nat_diff_distrib)
  moreover have "- int (length xs) \<le> - 1"
    using assms by simp
  ultimately show ?thesis
    using assms 0 by (simp add: py_get_def Suc_le_eq)
next
  case (Suc k)
  with assms show ?thesis by (simp add: py_get_def)
qed

lemma get_closest_eq:
  assumes "pose s = Some ps" "waypoint_tree s = Some (Tree pts)" "waypoints_2d s = Some pts" "pts \<noteq> []"
  defines "p \<equiv> (pos_x (position ps), pos_y (position ps))"
  defines "c \<equiv> query (Tree pts) p"
  shows "c < length pts"
    and "get_closest_waypoint_index s =
      Inr (if 0 < np_dot (np_sub (pts ! c) (pts ! ((c + length pts - 1) mod length pts))) (np_sub p (pts ! c))
           then (c + 1) mod length pts else c)"
proof -
  show c: "c < length pts"
    using assms(4) argmin_less[of "map (euclid2 p) pts"] by (simp add: c_def)
  have g1: "py_get pts (int c) = Inr (pts ! c)"
    using c by (simp add: py_get_in_range)
  have g2: "py_get pts (int c - 1) = Inr (pts ! ((c + length pts - 1) mod length pts))"
    using c by (rule py_get_prev)
  have pe: "(pos_x (position ps), pos_y (position ps)) = p"
    by (simp add: p_def)
  have ce: "argmin (map (euclid2 p) pts) = c"
    by (simp add: c_def)
  show "get_closest_waypoint_index s =
      Inr (if 0 < np_dot (np_sub (pts ! c) (pts ! ((c + length pts - 1) mod length pts))) (np_sub p (pts ! c))
           then (c + 1) mod length pts else c)"
    unfolding get_closest_waypoint_index_def
    by (simp add: assms(1,2,3) Let_def pe ce g1 g2)
qed

lemma node_fields:
  "base_lane (node route a stopline) = Some route"
  "pose (node route a stopline) = Some (pose_at a 0)"
  "stopline_wp_index (node route a stopline) = stopline"
  by (simp_all add: node_def traffic_cb_def pose_cb_def waypoints_cb_def init_def Let_def
      not_waypoints_2d_def KDTree_def split: sum.splits)

lemma node_index:
  "route \<noteq> [] \<Longrightarrow> waypoints_2d (node route a stopline) = Some (map xy route)"
  "route \<noteq> [] \<Longrightarrow> waypoint_tree (node route a stopline) = Some (Tree (map xy route))"
  by (simp_all add: node_def traffic_cb_def pose_cb_def waypoints_cb_def init_def Let_def
      not_waypoints_2d_def KDTree_def)

lemma prev_index: "c < n \<Longrightarrow> nat ((int c - 1) mod int n) = (c + n - 1) mod n"
proof (cases c)
  case 0
  assume "c < n"
  with 0 have "(- 1) mod int n = int n - 1"
    by (simp add: zmod_minus1)
  with 0 \<open>c < n\<close> show ?thesis by (simp add: nat_diff_distrib)
next
  case (Suc k)
  assume "c < n"
  with Suc have "(int c - 1) mod int n = int k" by simp
  with Suc \<open>c < n\<close> show ?thesis by simp
qed

lemma euclid2_zero: "euclid2 p q = 0 \<longleftrightarrow> p = q"
  by (cases p; cases q) (simp add: euclid2_def sum_power2_eq_zero_iff)

lemma euclid2_nonneg: "0 \<le> euclid2 p q"
  by (simp add: euclid2_def)

lemma query_at_vertex:
  assumes "k < length pts"
  shows "pts ! query (Tree pts) (pts ! k) = pts ! k"
proof -
  let ?ds = "map (euclid2 (pts ! k)) pts"
  have "?ds ! argmin ?ds \<le> ?ds ! k"
    using assms by (intro argmin_least) simp
  moreover have "?ds ! k = 0"
    using assms by (simp add: euclid2_zero)
  moreover have "pts \<noteq> []"
    using assms by auto
  then have a: "argmin ?ds < length pts"
    using argmin_less[of ?ds] by simp
  ultimately have "euclid2 (pts ! k) (pts ! argmin ?ds) \<le> 0"
    by simp
  then have "euclid2 (pts ! k) (pts ! argmin ?ds) = 0"
    using euclid2_nonneg[of "pts ! k" "pts ! argmin ?ds"] by linarith
  then show ?thesis by (simp add: euclid2_zero)
qed

lemma route10_xy:
  "map xy route10 = [(0,0), (1,0), (2,0), (3,0), (4,0), (5,0), (6,0), (7,0), (8,0), (9,0)]"
  by (simp add: route10_def xy_def wp_at_def pose_at_def)

lemma euclid2_axis: "euclid2 (a, 0) (b, 0) = \<bar>a - b\<bar>"
  by (simp add: euclid2_def)

lemma query_route10:
  "query (Tree (map xy route10)) (0, 0) = 0"
  "query (Tree (map xy route10)) (1, 0) = 1"
  "query (Tree (map xy route10)) (6/5, 0) = 1"
  "query (Tree (map xy route10)) (8, 0) = 8"
  by (simp_all add: route10_xy euclid2_axis)

lemma route10_nonempty: "route10 \<noteq> []"
  by (simp add: route10_def)

lemma pose_at_xy: "(pos_x (position (pose_at a b)), pos_y (position (pose_at a b))) = (a, b)"
  by (simp add: pose_at_def)

lemma closest_on:
  assumes "route \<noteq> []" and "query (Tree (map xy route)) (a, 0) = c"
    and "\<not> 0 < np_dot (np_sub (map xy route ! c) (map xy route ! ((c + length route - 1) mod length route)))
                   (np_sub (a, 0) (map xy route ! c))"
  shows "get_closest_waypoint_index (node route a st) = Inr c"
proof -
  have ne: "map xy route \<noteq> []"
    using assms(1) by simp
  have f1: "pose (node route a st) = Some (pose_at a 0)"
    by (rule node_fields)
  have f2: "waypoint_tree (node route a st) = Some (Tree (map xy route))"
    using assms(1) by (rule node_index)
  have f3: "waypoints_2d (node route a st) = Some (map xy route)"
    using assms(1) by (rule node_index)
  have "get_closest_waypoint_index (node route a st) =
      Inr (if 0 < np_dot (np_sub (map xy route ! c)
                   (map xy route ! ((c + length (map xy route) - 1) mod length (map xy route))))
                 (np_sub (a, 0) (map xy route ! c))
           then (c + 1) mod length (map xy route) else c)"
    using get_closest_eq(2)[OF f1 f2 f3 ne]
    unfolding pose_at_xy assms(2) .
  then show ?thesis
    using assms(3) by (simp only: length_map if_False)
qed


lemma closest_route10_0: "get_closest_waypoint_index (node route10 0 st) = Inr 0"
proof (rule closest_on)
  show "route10 \<noteq> []" by (rule route10_nonempty)
  show "query (Tree (map xy route10)) (0, 0) = 0" by (rule query_route10)
  show "\<not> 0 < np_dot (np_sub (map xy route10 ! 0) (map xy route10 ! ((0 + length route10 - 1) mod length route10)))
                   (np_sub (0, 0) (map xy route10 ! 0))"
    by (simp add: route10_xy route10_length np_dot_def np_sub_def)
qed

lemma closest_route10_8: "get_closest_waypoint_index (node route10 8 st) = Inr 8"
proof (rule closest_on)
  show "route10 \<noteq> []" by (rule route10_nonempty)
  show "query (Tree (map xy route10)) (8, 0) = 8" by (rule query_route10)
  show "\<not> 0 < np_dot (np_sub (map xy route10 ! 8) (map xy route10 ! ((8 + length route10 - 1) mod length route10)))
                   (np_sub (8, 0) (map xy route10 ! 8))"
    by (simp add: route10_xy route10_length np_dot_def np_sub_def)
qed

lemma node_stop_offset_6: "stop_offset (stopline_wp_index (node route 0 6)) 0 = 2"
  by (simp add: node_fields stop_offset_def STOP_LINE_MARGIN_def)

lemma generate_lane_Inr:
  assumes "get_closest_waypoint_index s = Inr c" "base_lane s = Some lane"
    and "generate_lane ip s = Inr out"
  shows "length out = length (take LOOKAHEAD_WPS (drop c lane))"
    and "i < length out \<Longrightarrow>
         out ! i = take LOOKAHEAD_WPS (drop c lane) ! i \<or>
         out ! i = decelerated ip (take LOOKAHEAD_WPS (drop c lane)) (stop_offset (stopline_wp_index s) c) i"
proof -
  let ?sl = "take LOOKAHEAD_WPS (drop c lane)"
  note g = generate_lane_cases[OF assms(1,2), of ip]
  show len: "length out = length ?sl"
  proof (cases "stopline_wp_index s = -1 \<or> int (c + LOOKAHEAD_WPS) \<le> stopline_wp_index s")
    case True
    with g assms(3) show ?thesis by simp
  next
    case False
    with g assms(3) have "decelerate_waypoints ip s ?sl c = Inr out" by simp
    then show ?thesis by (rule decelerate_waypoints_Inr(1))
  qed
  show "out ! i = ?sl ! i \<or> out ! i = decelerated ip ?sl (stop_offset (stopline_wp_index s) c) i"
    if "i < length out"
  proof (cases "stopline_wp_index s = -1 \<or> int (c + LOOKAHEAD_WPS) \<le> stopline_wp_index s")
    case True
    with g assms(3) show ?thesis by simp
  next
    case False
    with g assms(3) have d: "decelerate_waypoints ip s ?sl c = Inr out" by simp
    from that len have "i < length ?sl" by simp
    with d have "out ! i = decelerated ip ?sl (stop_offset (stopline_wp_index s) c) i"
      by (rule decelerate_waypoints_Inr(2))
    then show ?thesis ..
  qed
qed

lemma slice_nth: "i < length (take n (drop c lane)) \<Longrightarrow> take n (drop c lane) ! i = lane ! (c + i)"
proof -
  assume i: "i < length (take n (drop c lane))"
  then have "c \<le> length lane" and "i < n"
    by auto
  then show ?thesis
    by (simp add: nth_drop)
qed

lemma slice_route10_8:
  "take LOOKAHEAD_WPS (drop 8 route10) = [wp_at 8 5, wp_at 9 5]"
  "take 100 (drop 8 route10) = [wp_at 8 5, wp_at 9 5]"
  by (simp_all add: route10_def LOOKAHEAD_WPS_def)

lemma slice_route10_0:
  "take LOOKAHEAD_WPS route10 = route10"
  "take 100 route10 = route10"
  by (simp_all add: route10_length LOOKAHEAD_WPS_def)

lemma brake_route10_8: "generate_lane ip (node route10 8 9) = Inr [wp_at 8 0, wp_at 9 0]"
proof -
  let ?sl = "[wp_at 8 5, wp_at 9 5]"
  have so: "stop_offset (stopline_wp_index (node route10 8 9)) 8 = 0"
    by (simp add: node_fields stop_offset_def STOP_LINE_MARGIN_def)
  have "generate_lane ip (node route10 8 9) = decelerate_waypoints ip (node route10 8 9) ?sl 8"
    using generate_lane_cases[where s = "node route10 8 9" and ip = ip, OF closest_route10_8 node_fields(1)]
    by (simp add: slice_route10_8 node_fields LOOKAHEAD_WPS_def)
  also have "\<dots> = Inr (map (decelerated ip ?sl 0) [0..<length ?sl])"
    using decelerate_waypoints_ok[of "node route10 8 9" 8 ?sl ip] by (simp add: so)
  also have "map (decelerated ip ?sl 0) [0..<length ?sl] = [decelerated ip ?sl 0 0, decelerated ip ?sl 0 1]"
    by (simp add: numeral_2_eq_2)
  also have "decelerated ip ?sl 0 0 = wp_at 8 0"
    by (simp add: decelerated_def profile_speed_zero LOOKAHEAD_WPS_def wp_at_def)
  also have "decelerated ip ?sl 0 1 = wp_at 9 0"
    by (simp add: decelerated_def profile_speed_zero LOOKAHEAD_WPS_def wp_at_def)
  finally show ?thesis .
qed

lemma argmin_head:
  assumes "\<forall>k < length ds. ds ! 0 \<le> ds ! k"
  shows "argmin ds = 0"
proof (rule ccontr)
  assume "argmin ds \<noteq> 0"
  then have pos: "0 < argmin ds" by simp
  then have "ds ! argmin ds < ds ! 0" by (rule argmin_first)
  moreover have "ds \<noteq> []" using pos by (cases ds) auto
  then have "argmin ds < length ds" by (rule argmin_less)
  with assms have "ds ! 0 \<le> ds ! argmin ds" by blast
  ultimately show False by simp
qed

lemma route120_length: "length route120 = 120"
  by (simp add: route120_def)

lemma route120_xy: "k < 120 \<Longrightarrow> map xy route120 ! k = (real k, 0)"
  by (simp add: route120_def xy_def wp_at_def pose_at_def)

lemma query_route120: "query (Tree (map xy route120)) (0, 0) = 0"
proof -
  have "\<forall>k < length (map (euclid2 (0, 0)) (map xy route120)).
          map (euclid2 (0, 0)) (map xy route120) ! 0 \<le> map (euclid2 (0, 0)) (map xy route120) ! k"
  proof (intro allI impI)
    fix k assume "k < length (map (euclid2 (0, 0)) (map xy route120))"
    then have k: "k < 120" by (simp add: route120_length)
    have "map (euclid2 (0, 0)) (map xy route120) ! 0 = euclid2 (0, 0) (map xy route120 ! 0)"
      by (subst nth_map) (simp_all add: route120_length)
    also have "\<dots> = 0"
      by (simp add: route120_xy euclid2_axis)
    also have "\<dots> \<le> euclid2 (0, 0) (map xy route120 ! k)"
      by (rule euclid2_nonneg)
    also have "\<dots> = map (euclid2 (0, 0)) (map xy route120) ! k"
      using k by (subst nth_map) (simp_all add: route120_length)
    finally show "map (euclid2 (0, 0)) (map xy route120) ! 0 \<le> map (euclid2 (0, 0)) (map xy route120) ! k" .
  qed
  then have "argmin (map (euclid2 (0, 0)) (map xy route120)) = 0"
    by (rule argmin_head)
  then show ?thesis by simp
qed

lemma closest_route120_0: "get_closest_waypoint_index (node route120 0 st) = Inr 0"
proof (rule closest_on)
  show "route120 \<noteq> []" using route120_length by auto
  show "query (Tree (map xy route120)) (0, 0) = 0" by (rule query_route120)
  have "map xy route120 ! 0 = (0, 0)"
    using route120_xy[of 0] by simp
  then show "\<not> 0 < np_dot (np_sub (map xy route120 ! 0) (map xy route120 ! ((0 + length route120 - 1) mod length route120)))
                   (np_sub (0, 0) (map xy route120 ! 0))"
    by (simp add: np_dot_def np_sub_def)
qed

lemma generate_lane_brake:
  assumes "get_closest_waypoint_index s = Inr c" "base_lane s = Some lane"
    and "stopline_wp_index s \<noteq> - 1" "stopline_wp_index s < int (c + LOOKAHEAD_WPS)"
  shows "generate_lane ip s = decelerate_waypoints ip s (take LOOKAHEAD_WPS (drop c lane)) c"
  using assms by (simp add: generate_lane_cases)


lemma node_stopline: "stopline_wp_index (node route a st) = st"
  by (rule node_fields)

lemma route10_nonneg: "\<forall>w \<in> set route10. 0 \<le> twist_linear_x w"
  by (simp add: route10_def wp_at_def)

lemma chain_route10:
  "chain_distance route10 0 2 = 2" "chain_distance route10 1 2 = 1" "chain_distance route10 (Suc 0) 2 = 1"
  by (simp_all add: chain_distance_def seg_def numeral_2_eq_2 route10_def dl_wp_at)

lemma sqrt2_bounds: "1 < sqrt 2" "sqrt 2 \<le> 5" "101 / 100 < sqrt 2"
proof -
  show "1 < sqrt 2" by simp
  have "sqrt 2 \<le> sqrt (5\<^sup>2)"
    by (rule real_sqrt_le_mono) simp
  then show "sqrt 2 \<le> 5" by simp
  show "101 / 100 < sqrt 2"
    by (rule real_less_rsqrt) (simp add: power2_eq_square)
qed

lemma deref_append: "\<forall>r \<in> set rs. r < length h \<Longrightarrow> deref (h @ ext) rs = deref h rs"
  by (simp add: deref_def nth_append)

lemma length_deref: "length (deref h rs) = length rs"
  by (simp add: deref_def)

lemma deref_nth: "i < length rs \<Longrightarrow> deref h rs ! i = h ! (rs ! i)"
  by (simp add: deref_def)

lemma obj_step:
  assumes refs: "\<forall>r \<in> set waypoints. r < length h"
    and i: "i < length waypoints" and wp: "wp = waypoints ! i"
    and so: "stop_offset stopline closest_index < length waypoints"
  shows "decelerate_loop_obj ip stopline waypoints closest_index ((i, wp) # rest) res h =
         decelerate_loop_obj ip stopline waypoints closest_index rest (res @ [length h])
           (h @ [decelerated ip (deref h waypoints) (stop_offset stopline closest_index) i])"
proof -
  let ?so = "stop_offset stopline closest_index"
  have wpr: "wp < length h"
    using refs i wp by simp
  have w: "(h @ [y]) ! wp = h ! wp" for y
    using wpr by (simp add: nth_append)
  have d2: "deref (h @ [y]) waypoints = deref h waypoints" for y
    using refs by (rule deref_append)
  have mx: "max (stopline - int closest_index - STOP_LINE_MARGIN) 0 = int ?so"
    by (simp add: stop_offset_def)
  have d: "distance (deref h waypoints) (int i) (int ?so) = Inr (chain_distance (deref h waypoints) i ?so)"
    using i so by (intro distance_ok) (simp_all add: length_deref)
  have r: "py_sqrt (2 * MAX_DECEL * chain_distance (deref h waypoints) i ?so) =
           Inr (sqrt (2 * MAX_DECEL * chain_distance (deref h waypoints) i ?so))"
    using max_decel_nonneg[of "deref h waypoints" i ?so] by (simp add: py_sqrt_def)
  have dn: "deref h waypoints ! i = h ! wp"
    using i wp by (simp add: deref_nth)
  show ?thesis
    by (simp add: new_Waypoint_def w d2 mx d r Let_def decelerated_def profile_speed_def
        profile_velocity_def snap_def dn Waypoint_def)
qed

lemma obj_step_fail:
  assumes refs: "\<forall>r \<in> set waypoints. r < length h"
    and i: "i < length waypoints" and wp: "wp = waypoints ! i"
    and so: "length waypoints \<le> stop_offset stopline closest_index"
  shows "decelerate_loop_obj ip stopline waypoints closest_index ((i, wp) # rest) res h =
         (Inl IndexError, h @ [Waypoint\<lparr>wp_pose := wp_pose (h ! wp)\<rparr>])"
proof -
  let ?so = "stop_offset stopline closest_index"
  have wpr: "wp < length h"
    using refs i wp by simp
  have w: "(h @ [y]) ! wp = h ! wp" for y
    using wpr by (simp add: nth_append)
  have d2: "deref (h @ [y]) waypoints = deref h waypoints" for y
    using refs by (rule deref_append)
  have mx: "max (stopline - int closest_index - STOP_LINE_MARGIN) 0 = int ?so"
    by (simp add: stop_offset_def)
  have d: "distance (deref h waypoints) (int i) (int ?so) = Inl IndexError"
    using i so by (intro distance_fail) (simp_all add: length_deref)
  show ?thesis
    by (simp add: new_Waypoint_def w d2 mx d Let_def)
qed

lemma obj_loop_ok:
  assumes "stop_offset stopline closest_index < length waypoints"
    and "\<forall>r \<in> set waypoints. r < length h"
    and "\<forall>e \<in> set es. fst e < length waypoints \<and> snd e = waypoints ! fst e"
  shows "decelerate_loop_obj ip stopline waypoints closest_index es res h =
         (Inr (res @ [length h..<length h + length es]),
          h @ map (\<lambda>e. decelerated ip (deref h waypoints) (stop_offset stopline closest_index) (fst e)) es)"
  using assms(2,3)
proof (induction es arbitrary: res h)
  case Nil
  then show ?case by simp
next
  case (Cons e es)
  let ?so = "stop_offset stopline closest_index"
  obtain i wp where e: "e = (i, wp)" by (cases e)
  with Cons.prems have i: "i < length waypoints" and wp: "wp = waypoints ! i" by auto
  let ?new = "decelerated ip (deref h waypoints) ?so i"
  have refs': "\<forall>r \<in> set waypoints. r < length (h @ [?new])"
    using Cons.prems(1) by auto
  have d': "deref (h @ [?new]) waypoints = deref h waypoints"
    using Cons.prems(1) by (rule deref_append)
  have "decelerate_loop_obj ip stopline waypoints closest_index (e # es) res h =
        decelerate_loop_obj ip stopline waypoints closest_index es (res @ [length h]) (h @ [?new])"
    unfolding e using Cons.prems(1) i wp assms(1) by (rule obj_step)
  also have "\<dots> = (Inr ((res @ [length h]) @ [length (h @ [?new])..<length (h @ [?new]) + length es]),
          (h @ [?new]) @ map (\<lambda>e. decelerated ip (deref (h @ [?new]) waypoints) ?so (fst e)) es)"
    using refs' Cons.prems(2) by (intro Cons.IH) simp_all
  also have "(res @ [length h]) @ [length (h @ [?new])..<length (h @ [?new]) + length es] =
             res @ [length h..<length h + length (e # es)]"
    by (subst (2) upt_rec) simp
  finally show ?case
    by (simp add: d' e)
qed

lemma decelerate_waypoints_obj_cases:
  assumes "\<forall>r \<in> set waypoints. r < length h"
  shows "decelerate_waypoints_obj ip s waypoints closest_index h =
     (if waypoints = [] then (Inr [], h)
      else if stop_offset (stopline_wp_index s) closest_index < length waypoints
      then (Inr [length h..<length h + length waypoints],
            h @ map (decelerated ip (deref h waypoints) (stop_offset (stopline_wp_index s) closest_index))
                  [0..<length waypoints])
      else (Inl IndexError, h @ [Waypoint\<lparr>wp_pose := wp_pose (h ! (waypoints ! 0))\<rparr>]))"
proof (cases "waypoints = []")
  case True
  then show ?thesis by (simp add: decelerate_waypoints_obj_def)
next
  case ne: False
  show ?thesis
  proof (cases "stop_offset (stopline_wp_index s) closest_index < length waypoints")
    case True
    have "decelerate_waypoints_obj ip s waypoints closest_index h =
         (Inr ([] @ [length h..<length h + length (enumerate 0 waypoints)]),
          h @ map (\<lambda>e. decelerated ip (deref h waypoints) (stop_offset (stopline_wp_index s) closest_index) (fst e))
                (enumerate 0 waypoints))"
      unfolding decelerate_waypoints_obj_def using True assms enumerate_nth by (rule obj_loop_ok)
    then show ?thesis
      using ne True by (simp only: map_enumerate_fst append_Nil length_enumerate if_True if_False)
  next
    case False
    obtain w ws where w: "waypoints = w # ws" using ne by (cases waypoints) auto
    have e: "enumerate 0 waypoints = (0, waypoints ! 0) # enumerate 1 ws"
      by (simp add: w)
    have "decelerate_waypoints_obj ip s waypoints closest_index h =
          (Inl IndexError, h @ [Waypoint\<lparr>wp_pose := wp_pose (h ! (waypoints ! 0))\<rparr>])"
      unfolding decelerate_waypoints_obj_def e
      using assms by (rule obj_step_fail) (use False ne in simp_all)
    then show ?thesis using ne False by simp
  qed
qed

lemma generate_lane_obj_cases:
  assumes "get_closest_waypoint_index s = Inr c" "base_lane s = Some lane"
  shows "generate_lane_obj ip s h =
     (if stopline_wp_index s = -1 \<or> int (c + LOOKAHEAD_WPS) \<le> stopline_wp_index s
      then (Inr (take LOOKAHEAD_WPS (drop c lane)), h)
      else decelerate_waypoints_obj ip s (take LOOKAHEAD_WPS (drop c lane)) c h)"
  using assms by (simp add: generate_lane_obj_def py_slice_def Let_def)

lemma closest_fields:
  "pose s = pose t \<Longrightarrow> waypoint_tree s = waypoint_tree t \<Longrightarrow> waypoints_2d s = waypoints_2d t \<Longrightarrow>
   get_closest_waypoint_index s = get_closest_waypoint_index t"
  by (simp add: get_closest_waypoint_index_def cong: option.case_cong)

lemma state_of_fields:
  "base_lane (state_of h s) = map_option (deref h) (base_lane s)"
  "stopline_wp_index (state_of h s) = stopline_wp_index s"
  by (simp_all add: state_of_def)

lemma state_of_closest: "get_closest_waypoint_index (state_of h s) = get_closest_waypoint_index s"
  by (rule closest_fields) (simp_all add: state_of_def)

lemma deref_slice: "deref h (take n (drop c lane)) = take n (drop c (deref h lane))"
  by (simp add: deref_def take_map drop_map)

lemma deref_fresh: "deref (h @ ys) [length h..<length h + length ys] = ys"
proof (rule nth_equalityI)
  show "length (deref (h @ ys) [length h..<length h + length ys]) = length ys"
    by (simp add: deref_def)
  fix i assume "i < length (deref (h @ ys) [length h..<length h + length ys])"
  then have "i < length ys" by (simp add: deref_def)
  then show "deref (h @ ys) [length h..<length h + length ys] ! i = ys ! i"
    by (simp add: deref_def nth_append)
qed

lemma set_slice: "\<forall>r \<in> set lane. r < length h \<Longrightarrow> \<forall>r \<in> set (take n (drop c lane)). r < length h"
  by (meson in_set_dropD in_set_takeD)

lemma generate_lane_obj_eq:
  assumes "get_closest_waypoint_index s = Inr c" "base_lane s = Some lane"
    and "\<forall>r \<in> set lane. r < length h"
    and "slice = take LOOKAHEAD_WPS (drop c lane)"
    and "so = stop_offset (stopline_wp_index s) c"
  shows "generate_lane_obj ip s h =
     (if stopline_wp_index s = -1 \<or> int (c + LOOKAHEAD_WPS) \<le> stopline_wp_index s then (Inr slice, h)
      else if slice = [] then (Inr [], h)
      else if so < length slice
      then (Inr [length h..<length h + length slice],
            h @ map (decelerated ip (deref h slice) so) [0..<length slice])
      else (Inl IndexError, h @ [Waypoint\<lparr>wp_pose := wp_pose (h ! (slice ! 0))\<rparr>]))"
proof -
  have "\<forall>r \<in> set slice. r < length h"
    unfolding assms(4) using assms(3) by (rule set_slice)
  then have "decelerate_waypoints_obj ip s slice c h =
     (if slice = [] then (Inr [], h)
      else if so < length slice
      then (Inr [length h..<length h + length slice],
            h @ map (decelerated ip (deref h slice) so) [0..<length slice])
      else (Inl IndexError, h @ [Waypoint\<lparr>wp_pose := wp_pose (h ! (slice ! 0))\<rparr>]))"
    unfolding assms(5) by (rule decelerate_waypoints_obj_cases)
  then show ?thesis
    using generate_lane_obj_cases[OF assms(1,2), of ip h] by (simp add: assms(4))
qed

lemma generate_lane_state_of_eq:
  assumes "get_closest_waypoint_index s = Inr c" "base_lane s = Some lane"
    and "slice = take LOOKAHEAD_WPS (drop c lane)"
    and "so = stop_offset (stopline_wp_index s) c"
  shows "generate_lane ip (state_of h s) =
     (if stopline_wp_index s = -1 \<or> int (c + LOOKAHEAD_WPS) \<le> stopline_wp_index s then Inr (deref h slice)
      else if slice = [] then Inr []
      else if so < length slice
      then Inr (map (decelerated ip (deref h slice) so) [0..<length slice])
      else Inl IndexError)"
proof -
  have c: "get_closest_waypoint_index (state_of h s) = Inr c"
    by (simp add: state_of_closest assms(1))
  have b: "base_lane (state_of h s) = Some (deref h lane)"
    by (simp add: state_of_fields assms(2))
  have sl: "take LOOKAHEAD_WPS (drop c (deref h lane)) = deref h slice"
    by (simp add: assms(3) deref_slice)
  have e: "deref h slice = [] \<longleftrightarrow> slice = []"
    by (simp add: deref_def)
  show ?thesis
    using generate_lane_cases[OF c b, of ip]
    by (simp add: sl state_of_fields decelerate_waypoints_cases e length_deref assms(4))
qed

lemma deref_route10: "deref route10 [0..<10] = route10"
  using map_nth[of route10] by (simp add: deref_def route10_length)

lemma node_obj_fields:
  "base_lane (node_obj h lane a st) = Some lane"
  "pose (node_obj h lane a st) = Some (pose_at a 0)"
  "stopline_wp_index (node_obj h lane a st) = st"
  "waypoints_2d (node_obj h lane a st) = Some (map xy (deref h lane))"
  "waypoint_tree (node_obj h lane a st) = Some (Tree (map xy (deref h lane)))"
  by (simp_all add: node_obj_def)

lemma closest_obj_route10_8: "get_closest_waypoint_index (node_obj route10 [0..<10] 8 st) = Inr 8"
proof -
  have "get_closest_waypoint_index (node_obj route10 [0..<10] 8 st) =
        get_closest_waypoint_index (node route10 8 st)"
    by (rule closest_fields)
       (simp_all add: node_obj_fields node_fields node_index route10_nonempty deref_route10)
  then show ?thesis by (simp add: closest_route10_8)
qed

lemma refs_route10: "\<forall>r \<in> set [0..<10]. r < length route10"
  by (simp add: route10_length)

lemma slice_refs_8: "take LOOKAHEAD_WPS (drop 8 [0..<10]) = [8, 9]"
  by (simp add: LOOKAHEAD_WPS_def upt_rec_numeral)

lemma deref_route10_8: "deref route10 [8, 9] = [wp_at 8 5, wp_at 9 5]"
  by (simp add: deref_def route10_def)

lemma brake_obj_route10_8:
  "generate_lane_obj ip (node_obj route10 [0..<10] 8 9) route10 =
     (Inr [10, 11], route10 @ [wp_at 8 0, wp_at 9 0])"
proof -
  let ?s = "node_obj route10 [0..<10] 8 9"
  let ?sl = "[wp_at 8 5, wp_at 9 5]"
  have so: "stop_offset (stopline_wp_index ?s) 8 = 0"
    by (simp add: node_obj_fields stop_offset_def STOP_LINE_MARGIN_def)
  have "generate_lane_obj ip ?s route10 =
        (Inr [length route10..<length route10 + length [8, 9 :: nat]],
         route10 @ map (decelerated ip (deref route10 [8, 9]) 0) [0..<length [8, 9 :: nat]])"
    using generate_lane_obj_eq[OF closest_obj_route10_8 node_obj_fields(1) refs_route10
        slice_refs_8[symmetric] so[symmetric], of ip]
    by (simp add: node_obj_fields LOOKAHEAD_WPS_def)
  also have "[length route10..<length route10 + length [8, 9 :: nat]] = [10, 11]"
    by (simp add: route10_length upt_rec_numeral)
  also have "map (decelerated ip (deref route10 [8, 9]) 0) [0..<length [8, 9 :: nat]] =
             [decelerated ip ?sl 0 0, decelerated ip ?sl 0 1]"
    by (simp add: numeral_2_eq_2 deref_route10_8)
  also have "decelerated ip ?sl 0 0 = wp_at 8 0"
    by (simp add: decelerated_def profile_speed_zero LOOKAHEAD_WPS_def wp_at_def)
  also have "decelerated ip ?sl 0 1 = wp_at 9 0"
    by (simp add: decelerated_def profile_speed_zero LOOKAHEAD_WPS_def wp_at_def)
  finally show ?thesis .
qed

lemma first_route:
  assumes "not_waypoints_2d (waypoints_2d s0)" "route1 \<noteq> []"
  shows "waypoints_cb s0 route1 =
     (s0\<lparr>base_lane := Some route1, waypoints_2d := Some (map xy route1),
         waypoint_tree := Some (Tree (map xy route1))\<rparr>, None)"
  using assms by (simp add: waypoints_cb_def Let_def KDTree_def)

lemma later_route:
  assumes "waypoints_2d s1 = Some pts" "pts \<noteq> []"
  shows "waypoints_cb s1 route2 = (s1\<lparr>base_lane := Some route2\<rparr>, None)"
  using assms by (simp add: waypoints_cb_def Let_def not_waypoints_2d_def)

section \<open>The distance helper\<close>

text \<open>
  C10. For in-bounds indices \<open>a \<le> b\<close>, \<^verbatim>\<open>distance(waypoints, a, b)\<close> is the sum of the
  Euclidean distances between consecutive waypoint positions from \<open>a\<close> to \<open>b\<close>; the
  first iteration, from \<open>a\<close> to itself, adds zero. When the first index is greater than
  the second the range is empty and the result is \<open>0\<close>. In \<^verbatim>\<open>decelerate_waypoints\<close> this
  is the case of every waypoint whose local index is beyond the stop offset: the call
  returns whenever the stop offset indexes the list, and every list it returns carries at
  such an index the speed computed from chain distance \<open>0\<close>.
\<close>

theorem distance_semantics:
  "(a \<le> b \<and> b < length waypoints \<longrightarrow>
      distance waypoints (int a) (int b) =
        Inr (\<Sum>k = a..<b. dl (position (wp_pose (waypoints ! k))) (position (wp_pose (waypoints ! Suc k)))))
   \<and> dl (position (wp_pose (waypoints ! a))) (position (wp_pose (waypoints ! a))) = 0
   \<and> (wp2 < wp1 \<longrightarrow> distance waypoints wp1 wp2 = Inr 0)
   \<and> (stop_offset stopline closest_index < i \<longrightarrow>
        distance waypoints (int i) (max (stopline - int closest_index - STOP_LINE_MARGIN) 0) = Inr 0)
   \<and> (stop_offset (stopline_wp_index s) closest_index < length waypoints \<longrightarrow>
        (\<exists>out. decelerate_waypoints ip s waypoints closest_index = Inr out))
   \<and> (\<forall>out. decelerate_waypoints ip s waypoints closest_index = Inr out \<longrightarrow>
        length out = length waypoints \<and>
        (\<forall>j. stop_offset (stopline_wp_index s) closest_index < j \<and> j < length waypoints \<longrightarrow>
             twist_linear_x (out ! j) =
               min (snap (sqrt (2 * MAX_DECEL * 0) + real j * CONSTANT_DECEL ip))
                   (twist_linear_x (waypoints ! j))))"
proof (intro conjI impI allI)
  assume "a \<le> b \<and> b < length waypoints"
  then have "distance waypoints (int a) (int b) = Inr (chain_distance waypoints a b)"
    by (intro distance_ok) auto
  then show "distance waypoints (int a) (int b) =
        Inr (\<Sum>k = a..<b. dl (position (wp_pose (waypoints ! k))) (position (wp_pose (waypoints ! Suc k))))"
    by (simp add: chain_distance_def seg_def)
next
  show "dl (position (wp_pose (waypoints ! a))) (position (wp_pose (waypoints ! a))) = 0"
    by (rule dl_self)
next
  assume "wp2 < wp1"
  then show "distance waypoints wp1 wp2 = Inr 0"
    by (rule distance_empty_range)
next
  assume "stop_offset stopline closest_index < i"
  then have "max (stopline - int closest_index - STOP_LINE_MARGIN) 0 < int i"
    by (simp add: stop_offset_def)
  then show "distance waypoints (int i) (max (stopline - int closest_index - STOP_LINE_MARGIN) 0) = Inr 0"
    by (rule distance_empty_range)
next
  assume "stop_offset (stopline_wp_index s) closest_index < length waypoints"
  then show "\<exists>out. decelerate_waypoints ip s waypoints closest_index = Inr out"
    by (simp add: decelerate_waypoints_ok)
next
  fix out
  assume r: "decelerate_waypoints ip s waypoints closest_index = Inr out"
  then show "length out = length waypoints"
    by (rule decelerate_waypoints_Inr(1))
next
  fix out j
  assume r: "decelerate_waypoints ip s waypoints closest_index = Inr out"
    and j: "stop_offset (stopline_wp_index s) closest_index < j \<and> j < length waypoints"
  then have "out ! j = decelerated ip waypoints (stop_offset (stopline_wp_index s) closest_index) j"
    by (intro decelerate_waypoints_Inr(2)) auto
  then show "twist_linear_x (out ! j) =
               min (snap (sqrt (2 * MAX_DECEL * 0) + real j * CONSTANT_DECEL ip))
                   (twist_linear_x (waypoints ! j))"
    using j by (simp add: decelerated_def profile_speed_past_stop)
qed

theorem distance_semantics_witness:
  "distance route10 0 2 = Inr 2 \<and> distance route10 3 2 = Inr 0 \<and> distance route10 4 2 = Inr 0 \<and>
   (\<exists>out. decelerate_waypoints Python3 (node route10 0 6) route10 0 = Inr out \<and>
      length out = 10 \<and> twist_linear_x (out ! 3) = 0)"
proof -
  note T = distance_semantics[where a = 0 and b = 2 and waypoints = route10 and ?wp2.0 = 2 and ?wp1.0 = 3
      and stopline = 6 and closest_index = 0 and i = 4 and s = "node route10 0 6" and ip = Python3]
  have s: "(\<Sum>k = 0..<2. dl (position (wp_pose (route10 ! k))) (position (wp_pose (route10 ! Suc k)))) = 2"
    by (simp add: numeral_2_eq_2 route10_def dl_wp_at)
  have d: "distance route10 0 2 = Inr 2 \<and> distance route10 3 2 = Inr 0 \<and> distance route10 4 2 = Inr 0"
    using T by (simp add: route10_length s stop_offset_def STOP_LINE_MARGIN_def)
  from T have "\<exists>out. decelerate_waypoints Python3 (node route10 0 6) route10 0 = Inr out"
    by (simp add: node_stop_offset_6 route10_length)
  then obtain out where out: "decelerate_waypoints Python3 (node route10 0 6) route10 0 = Inr out"
    by blast
  from T out have len: "length out = length route10"
    and sp: "\<forall>j. stop_offset (stopline_wp_index (node route10 0 6)) 0 < j \<and> j < length route10 \<longrightarrow>
             twist_linear_x (out ! j) =
               min (snap (sqrt (2 * MAX_DECEL * 0) + real j * CONSTANT_DECEL Python3))
                   (twist_linear_x (route10 ! j))"
    by blast+
  have "twist_linear_x (out ! 3) =
          min (snap (sqrt (2 * MAX_DECEL * 0) + real 3 * CONSTANT_DECEL Python3)) (twist_linear_x (route10 ! 3))"
    using sp by (simp add: node_stop_offset_6 route10_length)
  then have "twist_linear_x (out ! 3) = 0"
    by (simp add: snap_def CONSTANT_DECEL_def LOOKAHEAD_WPS_def route10_def wp_at_def)
  with d out len show ?thesis
    by (simp add: route10_length)
qed

section \<open>The closest waypoint ahead\<close>

text \<open>
  C4. Directionality correction. With \<open>c\<close> the raw nearest index and \<open>L\<close> the length of the
  route, \<^verbatim>\<open>get_closest_waypoint_index\<close> returns \<open>(c + 1) mod L\<close> when the dot product of
  \<open>route[c] - route[(c - 1) mod L]\<close> with \<open>query - route[c]\<close> is positive, and \<open>c\<close>
  otherwise. A query point that is the vertex \<open>k\<close> of a route with distinct positions has
  raw nearest index \<open>k\<close> and gets \<open>k\<close> back.
\<close>

theorem directionality_correction:
  assumes "pose s = Some ps" "waypoint_tree s = Some (Tree pts)" "waypoints_2d s = Some pts"
    and "pts \<noteq> []"
    and "p = (pos_x (position ps), pos_y (position ps))" and "c = query (Tree pts) p"
  shows "c < length pts \<and>
     get_closest_waypoint_index s =
       Inr (if 0 < np_dot (np_sub (pts ! c) (pts ! nat ((int c - 1) mod int (length pts)))) (np_sub p (pts ! c))
            then (c + 1) mod length pts else c) \<and>
     (\<forall>k < length pts. distinct pts \<and> p = pts ! k \<longrightarrow> c = k \<and> get_closest_waypoint_index s = Inr k)"
proof -
  have c: "c < length pts"
    unfolding assms(5,6) using assms(1-4) by (rule get_closest_eq(1))
  have g: "get_closest_waypoint_index s =
      Inr (if 0 < np_dot (np_sub (pts ! c) (pts ! ((c + length pts - 1) mod length pts))) (np_sub p (pts ! c))
           then (c + 1) mod length pts else c)"
    unfolding assms(5,6) using assms(1-4) by (rule get_closest_eq(2))
  have v: "c = k \<and> get_closest_waypoint_index s = Inr k"
    if "k < length pts" "distinct pts" "p = pts ! k" for k
  proof -
    have "pts ! c = pts ! k"
      unfolding assms(6) that(3) using that(1) by (rule query_at_vertex)
    with c that(1,2) have ck: "c = k"
      by (simp add: nth_eq_iff_index_eq)
    have "np_sub p (pts ! c) = (0, 0)"
      using ck that(3) by (simp add: np_sub_def)
    then show ?thesis
      using g ck by (simp add: np_dot_def)
  qed
  have g': "get_closest_waypoint_index s =
       Inr (if 0 < np_dot (np_sub (pts ! c) (pts ! nat ((int c - 1) mod int (length pts)))) (np_sub p (pts ! c))
            then (c + 1) mod length pts else c)"
    unfolding prev_index[OF c] by (rule g)
  show ?thesis
    using c g' v by blast
qed

theorem directionality_correction_witness:
  "get_closest_waypoint_index (node route10 (6/5) 6) = Inr 2 \<and>
   get_closest_waypoint_index (node route10 1 6) = Inr 1"
proof -
  have ne: "map xy route10 \<noteq> []"
    by (simp add: route10_nonempty)
  have p1: "(6/5, 0) = (pos_x (position (pose_at (6/5) 0)), pos_y (position (pose_at (6/5) 0)))"
    by (simp add: pose_at_def)
  have q1: "1 = query (Tree (map xy route10)) (6/5, 0)"
    by (rule query_route10(3)[symmetric])
  have p2: "(1, 0) = (pos_x (position (pose_at 1 0)), pos_y (position (pose_at 1 0)))"
    by (simp add: pose_at_def)
  have q2: "1 = query (Tree (map xy route10)) (1, 0)"
    by (rule query_route10(2)[symmetric])
  have prev: "nat ((int 1 - 1) mod int (length (map xy route10))) = 0"
    by simp
  have n1: "map xy route10 ! 1 = (1, 0)" and n0: "map xy route10 ! 0 = (0, 0)"
    and len: "length (map xy route10) = 10"
    by (simp_all add: route10_xy)
  have a: "get_closest_waypoint_index (node route10 (6/5) 6) = Inr 2"
    using directionality_correction[OF node_fields(2) node_index(2)[OF route10_nonempty]
        node_index(1)[OF route10_nonempty] ne p1 q1, THEN conjunct2, THEN conjunct1]
    unfolding prev n1 n0 len
    by (simp add: np_dot_def np_sub_def n0 n1)
  have b: "get_closest_waypoint_index (node route10 1 6) = Inr 1"
    using directionality_correction[OF node_fields(2) node_index(2)[OF route10_nonempty]
        node_index(1)[OF route10_nonempty] ne p2 q2, THEN conjunct2, THEN conjunct1]
    unfolding prev n1 n0 len
    by (simp add: np_dot_def np_sub_def n0 n1)
  show ?thesis using a b by simp
qed

section \<open>The tick without a stop in range\<close>

text \<open>
  C7. Pass-through. When the stop index is \<open>-1\<close>, or is not below the closest index plus
  \<^verbatim>\<open>LOOKAHEAD_WPS\<close>, \<^verbatim>\<open>generate_lane\<close> returns the slice
  \<^verbatim>\<open>route[closest : closest + LOOKAHEAD_WPS]\<close> itself: the same waypoints, with their
  speeds as they are in the base route.
\<close>

theorem pass_through:
  assumes "get_closest_waypoint_index s = Inr c" "base_lane s = Some lane"
    and "stopline_wp_index s = -1 \<or> int (c + LOOKAHEAD_WPS) \<le> stopline_wp_index s"
  shows "generate_lane ip s = Inr (take LOOKAHEAD_WPS (drop c lane)) \<and> LOOKAHEAD_WPS = 100"
  using assms by (simp add: generate_lane_cases LOOKAHEAD_WPS_def)

theorem pass_through_witness:
  "generate_lane Python3 (node route10 0 (- 1)) = Inr route10 \<and>
   generate_lane Python2 (node route10 8 108) = Inr [wp_at 8 5, wp_at 9 5]"
proof -
  have a: "generate_lane Python3 (node route10 0 (- 1)) = Inr route10"
    using pass_through[where s = "node route10 0 (- 1)" and ip = Python3, OF closest_route10_0 node_fields(1)]
    by (simp add: node_fields slice_route10_0)
  have b: "generate_lane Python2 (node route10 8 108) = Inr [wp_at 8 5, wp_at 9 5]"
    using pass_through[where s = "node route10 8 108" and ip = Python2, OF closest_route10_8 node_fields(1)]
    by (simp add: node_fields slice_route10_8 LOOKAHEAD_WPS_def)
  show ?thesis using a b by simp
qed

section \<open>The speed cap\<close>

text \<open>
  C6. Speed cap. Every window that \<^verbatim>\<open>generate_lane\<close> returns, in the pass-through and
  in the deceleration branch alike, is as long as the base slice, and the speed of each of
  its waypoints is at most the speed of the base route waypoint at the same place of the
  slice, which is the route waypoint at the closest index plus the local index.
\<close>

theorem speed_cap:
  assumes "get_closest_waypoint_index s = Inr c" "base_lane s = Some lane"
    and "generate_lane ip s = Inr out"
  shows "length out = length (take LOOKAHEAD_WPS (drop c lane)) \<and>
         (\<forall>i < length out. twist_linear_x (out ! i) \<le> twist_linear_x (take LOOKAHEAD_WPS (drop c lane) ! i) \<and>
                            take LOOKAHEAD_WPS (drop c lane) ! i = lane ! (c + i))"
proof (intro conjI allI impI)
  let ?sl = "take LOOKAHEAD_WPS (drop c lane)"
  show len: "length out = length ?sl"
    using assms by (rule generate_lane_Inr(1))
  fix i assume i: "i < length out"
  then have "out ! i = ?sl ! i \<or> out ! i = decelerated ip ?sl (stop_offset (stopline_wp_index s) c) i"
    by (rule generate_lane_Inr(2)[OF assms])
  then show "twist_linear_x (out ! i) \<le> twist_linear_x (?sl ! i)"
    using profile_speed_le[of ip ?sl "stop_offset (stopline_wp_index s) c" i]
    by (auto simp: decelerated_def)
  show "?sl ! i = lane ! (c + i)"
    using i len by (intro slice_nth) simp
qed

theorem speed_cap_witness:
  "generate_lane Python3 (node route10 8 9) = Inr [wp_at 8 0, wp_at 9 0] \<and>
   twist_linear_x ([wp_at 8 0, wp_at 9 0] ! 1) \<le> twist_linear_x (route10 ! 9) \<and>
   twist_linear_x (route10 ! 9) = 5 \<and>
   generate_lane Python3 (node route10 0 (- 1)) = Inr route10 \<and>
   twist_linear_x (route10 ! 3) \<le> twist_linear_x (route10 ! 3)"
proof -
  have g: "generate_lane Python3 (node route10 8 9) = Inr [wp_at 8 0, wp_at 9 0]"
    by (rule brake_route10_8)
  have "\<forall>i < length [wp_at 8 0, wp_at 9 0].
          twist_linear_x ([wp_at 8 0, wp_at 9 0] ! i) \<le> twist_linear_x (take LOOKAHEAD_WPS (drop 8 route10) ! i) \<and>
          take LOOKAHEAD_WPS (drop 8 route10) ! i = route10 ! (8 + i)"
    using speed_cap[OF closest_route10_8 node_fields(1) g] by blast
  from this[rule_format, of 1]
  have a: "twist_linear_x ([wp_at 8 0, wp_at 9 0] ! 1) \<le> twist_linear_x (route10 ! 9)"
    by (simp add: slice_route10_8(1) route10_def wp_at_def)
  have h: "generate_lane Python3 (node route10 0 (- 1)) = Inr route10"
    using generate_lane_cases[where s = "node route10 0 (- 1)" and ip = Python3, OF closest_route10_0 node_fields(1)]
    by (simp add: node_fields slice_route10_0)
  have b: "twist_linear_x (route10 ! 3) \<le> twist_linear_x (route10 ! 3)"
    using speed_cap[OF closest_route10_0 node_fields(1) h] by simp
  have c: "twist_linear_x (route10 ! 9) = 5"
    by (simp add: route10_def wp_at_def)
  show ?thesis using g a h b c by simp
qed

section \<open>The length of the window\<close>

text \<open>
  C5. Window bounding. For a closest index \<open>c\<close> inside a route of length \<open>L\<close>, every window
  that \<^verbatim>\<open>generate_lane\<close> returns has at most \<^verbatim>\<open>LOOKAHEAD_WPS\<close> waypoints: exactly
  \<^verbatim>\<open>LOOKAHEAD_WPS\<close> when \<open>c + LOOKAHEAD_WPS \<le> L\<close>, and \<open>L - c\<close> otherwise. Its waypoint at
  local index \<open>i\<close> carries the pose of route waypoint \<open>c + i\<close>: nothing wraps around and
  nothing is repeated. When the slice is full the call returns in either branch.
  (With a cut slice and a stop index at least four past the end of the route the
  deceleration branch reads past the slice and raises \<^verbatim>\<open>IndexError\<close>: no window.)
\<close>

theorem window_bounding:
  assumes "get_closest_waypoint_index s = Inr c" "base_lane s = Some lane" "c < length lane"
  shows "(c + LOOKAHEAD_WPS \<le> length lane \<longrightarrow> (\<exists>out. generate_lane ip s = Inr out)) \<and>
         (\<forall>out. generate_lane ip s = Inr out \<longrightarrow>
            length out \<le> LOOKAHEAD_WPS \<and>
            (c + LOOKAHEAD_WPS \<le> length lane \<longrightarrow> length out = LOOKAHEAD_WPS) \<and>
            (length lane < c + LOOKAHEAD_WPS \<longrightarrow> length out = length lane - c) \<and>
            (\<forall>i < length out. wp_pose (out ! i) = wp_pose (lane ! (c + i))))"
proof (intro conjI allI impI)
  let ?sl = "take LOOKAHEAD_WPS (drop c lane)"
  note g = generate_lane_cases[OF assms(1,2), of ip]
  show "\<exists>out. generate_lane ip s = Inr out" if full: "c + LOOKAHEAD_WPS \<le> length lane"
  proof (cases "stopline_wp_index s = -1 \<or> int (c + LOOKAHEAD_WPS) \<le> stopline_wp_index s")
    case True
    with g show ?thesis by simp
  next
    case False
    from full have len: "length ?sl = LOOKAHEAD_WPS" by simp
    from False have "stop_offset (stopline_wp_index s) c < LOOKAHEAD_WPS"
      by (auto simp: stop_offset_def STOP_LINE_MARGIN_def LOOKAHEAD_WPS_def max_def)
    with len have "stop_offset (stopline_wp_index s) c < length ?sl" by simp
    then have "\<exists>out. decelerate_waypoints ip s ?sl c = Inr out"
      by (simp add: decelerate_waypoints_ok)
    with g False show ?thesis by simp
  qed
next
  fix out assume r: "generate_lane ip s = Inr out"
  have len: "length out = length (take LOOKAHEAD_WPS (drop c lane))"
    using assms(1,2) r by (rule generate_lane_Inr(1))
  show "length out \<le> LOOKAHEAD_WPS"
    using len by simp
  show "length out = LOOKAHEAD_WPS" if "c + LOOKAHEAD_WPS \<le> length lane"
    using len that by simp
  show "length out = length lane - c" if "length lane < c + LOOKAHEAD_WPS"
    using len that by simp
  fix i assume i: "i < length out"
  let ?sl = "take LOOKAHEAD_WPS (drop c lane)"
  have "out ! i = ?sl ! i \<or> out ! i = decelerated ip ?sl (stop_offset (stopline_wp_index s) c) i"
    using i by (rule generate_lane_Inr(2)[OF assms(1,2) r])
  moreover have "?sl ! i = lane ! (c + i)"
    using i len by (intro slice_nth) simp
  ultimately show "wp_pose (out ! i) = wp_pose (lane ! (c + i))"
    by (auto simp: decelerated_def)
qed

theorem window_bounding_witness:
  "(\<exists>out. generate_lane Python3 (node route120 0 (- 1)) = Inr out \<and> length out = 100) \<and>
   (\<exists>out. generate_lane Python3 (node route120 0 50) = Inr out \<and> length out = 100) \<and>
   (\<exists>out. generate_lane Python3 (node route10 8 (- 1)) = Inr out \<and> length out = 2 \<and>
      wp_pose (out ! 1) = wp_pose (route10 ! 9))"
proof -
  have l120: "0 < length route120" "0 + LOOKAHEAD_WPS \<le> length route120"
    by (simp_all add: route120_length LOOKAHEAD_WPS_def)
  have l10: "8 < length route10" "length route10 < 8 + LOOKAHEAD_WPS"
    by (simp_all add: route10_length LOOKAHEAD_WPS_def)
  note A = window_bounding[where s = "node route120 0 (- 1)" and ip = Python3,
      OF closest_route120_0 node_fields(1) l120(1)]
  note B = window_bounding[where s = "node route120 0 50" and ip = Python3,
      OF closest_route120_0 node_fields(1) l120(1)]
  note C = window_bounding[where s = "node route10 8 (- 1)" and ip = Python3,
      OF closest_route10_8 node_fields(1) l10(1)]
  have a: "\<exists>out. generate_lane Python3 (node route120 0 (- 1)) = Inr out \<and> length out = 100"
    using A l120(2) by (auto simp: LOOKAHEAD_WPS_def)
  have b: "\<exists>out. generate_lane Python3 (node route120 0 50) = Inr out \<and> length out = 100"
    using B l120(2) by (auto simp: LOOKAHEAD_WPS_def)
  have g: "generate_lane Python3 (node route10 8 (- 1)) = Inr [wp_at 8 5, wp_at 9 5]"
    using generate_lane_cases[where s = "node route10 8 (- 1)" and ip = Python3,
        OF closest_route10_8 node_fields(1)]
    by (simp add: node_fields slice_route10_8)
  from C g have "length [wp_at 8 5, wp_at 9 5] = length route10 - 8 \<and>
      (\<forall>i < length [wp_at 8 5, wp_at 9 5]. wp_pose ([wp_at 8 5, wp_at 9 5] ! i) = wp_pose (route10 ! (8 + i)))"
    using l10(2) by blast
  then have "\<forall>i < length [wp_at 8 5, wp_at 9 5].
      wp_pose ([wp_at 8 5, wp_at 9 5] ! i) = wp_pose (route10 ! (8 + i))"
    by blast
  from this[rule_format, of 1]
  have "wp_pose ([wp_at 8 5, wp_at 9 5] ! 1) = wp_pose (route10 ! 9)"
    by simp
  with g have c: "\<exists>out. generate_lane Python3 (node route10 8 (- 1)) = Inr out \<and> length out = 2 \<and>
      wp_pose (out ! 1) = wp_pose (route10 ! 9)"
    by simp
  show ?thesis using a b c by blast
qed

section \<open>The deceleration branch\<close>



text \<open>
  C1. Stop convergence. For a non-empty base slice with non-negative base speeds and an
  active stop (a stop index other than \<open>-1\<close> below the closest index plus
  \<^verbatim>\<open>LOOKAHEAD_WPS\<close>), with \<open>so = max(stopIndex - closest - MARGIN, 0)\<close>: every window the
  tick returns has a waypoint at local index \<open>so\<close>, its speed is exactly \<open>0\<close>, and so is
  the speed of every waypoint of the window at a local index from \<open>so\<close> on. The tick
  returns such a window whenever \<open>so\<close> indexes the slice, as it does for every stop index
  inside the route. (When \<open>so\<close> is past the end of a cut slice, the distance helper reads
  past the slice and the tick raises \<^verbatim>\<open>IndexError\<close>.)
\<close>

theorem stop_convergence:
  assumes "get_closest_waypoint_index s = Inr c" "base_lane s = Some lane"
    and "slice = take LOOKAHEAD_WPS (drop c lane)" "slice \<noteq> []"
    and "stopline_wp_index s \<noteq> - 1" "stopline_wp_index s < int (c + LOOKAHEAD_WPS)"
    and "\<forall>w \<in> set slice. 0 \<le> twist_linear_x w"
    and "so = nat (max (stopline_wp_index s - int c - STOP_LINE_MARGIN) 0)"
  shows "(so < length slice \<longrightarrow>
           (\<exists>out. generate_lane ip s = Inr out \<and> length out = length slice \<and>
                  twist_linear_x (out ! so) = 0)) \<and>
         (\<forall>out. generate_lane ip s = Inr out \<longrightarrow>
            so < length out \<and> twist_linear_x (out ! so) = 0 \<and>
            (\<forall>i. so \<le> i \<and> i < length out \<longrightarrow> twist_linear_x (out ! i) = 0))"
proof -
  have so: "so = stop_offset (stopline_wp_index s) c"
    by (simp add: assms(8) stop_offset_def)
  have g: "generate_lane ip s = decelerate_waypoints ip s slice c"
    unfolding assms(3) using assms(1,2,5,6) by (rule generate_lane_brake)
  have short: "length slice \<le> LOOKAHEAD_WPS"
    by (simp add: assms(3))
  have main: "so < length out \<and> twist_linear_x (out ! so) = 0 \<and>
            (\<forall>i. so \<le> i \<and> i < length out \<longrightarrow> twist_linear_x (out ! i) = 0)"
    if r: "generate_lane ip s = Inr out" for out
  proof -
    from r have d: "decelerate_waypoints ip s slice c = Inr out"
      by (simp add: g)
    then have len: "length out = length slice"
      by (rule decelerate_waypoints_Inr(1))
    have inr: "so < length slice"
      unfolding so using d assms(4) by (rule decelerate_waypoints_Inr(3))
    have zero: "twist_linear_x (out ! i) = 0" if "so \<le> i" "i < length out" for i
    proof -
      from that len have i: "i < length slice" by simp
      with d have "out ! i = decelerated ip slice (stop_offset (stopline_wp_index s) c) i"
        by (rule decelerate_waypoints_Inr(2))
      moreover have "0 \<le> twist_linear_x (slice ! i)"
        using assms(7) i by simp
      moreover have "i < LOOKAHEAD_WPS"
        using i short by simp
      ultimately show ?thesis
        using that(1) by (simp add: decelerated_def so[symmetric] profile_speed_zero)
    qed
    from inr len have "so < length out" by simp
    with zero show ?thesis by simp
  qed
  have tot: "\<exists>out. generate_lane ip s = Inr out \<and> length out = length slice \<and> twist_linear_x (out ! so) = 0"
    if "so < length slice"
  proof -
    from that obtain out where r: "generate_lane ip s = Inr out"
      by (auto simp: g so decelerate_waypoints_ok)
    then have "length out = length slice"
      by (simp add: g decelerate_waypoints_Inr(1))
    with r main[OF r] show ?thesis by blast
  qed
  show ?thesis using main tot by blast
qed

theorem stop_convergence_witness:
  "\<exists>out. generate_lane Python3 (node route10 0 6) = Inr out \<and>
     twist_linear_x (out ! 2) = 0 \<and> twist_linear_x (out ! 9) = 0"
proof -
  let ?s = "node route10 0 6"
  have h3: "route10 = take LOOKAHEAD_WPS (drop 0 route10)"
    by (simp add: slice_route10_0)
  have h5: "stopline_wp_index ?s \<noteq> - 1" and h6: "stopline_wp_index ?s < int (0 + LOOKAHEAD_WPS)"
    by (simp_all add: node_stopline LOOKAHEAD_WPS_def)
  have h8: "2 = nat (max (stopline_wp_index ?s - int 0 - STOP_LINE_MARGIN) 0)"
    by (simp add: node_stopline STOP_LINE_MARGIN_def)
  note T = stop_convergence[where ip = Python3, OF closest_route10_0 node_fields(1) h3 route10_nonempty
      h5 h6 route10_nonneg h8]
  from T obtain out where r: "generate_lane Python3 ?s = Inr out" and len: "length out = length route10"
    by (auto simp: route10_length)
  with T have z: "\<forall>i. 2 \<le> i \<and> i < length out \<longrightarrow> twist_linear_x (out ! i) = 0"
    by blast
  from z[rule_format, of 2] z[rule_format, of 9] len
  have "twist_linear_x (out ! 2) = 0" "twist_linear_x (out ! 9) = 0"
    by (simp_all add: route10_length)
  with r show ?thesis by blast
qed

section \<open>The example of the specification\<close>

text \<open>
  C8. End-to-end example. Ten waypoints one unit apart with base speed \<open>5\<close>, the vehicle
  at waypoint \<open>0\<close>, stop index \<open>6\<close>: the closest index is \<open>0\<close>, the stop offset is \<open>2\<close>, the
  chain distances from local indices \<open>0\<close> and \<open>1\<close> to the stop offset are \<open>2\<close> and \<open>1\<close>, and
  the tick returns ten waypoints, with speed \<open>0\<close> at local index \<open>2\<close>, \<open>sqrt 2\<close> at local
  index \<open>0\<close> and \<open>1 + CONSTANT_DECEL\<close> at local index \<open>1\<close>: both at most \<open>5\<close>, both positive,
  the first greater than the second.
\<close>

theorem end_to_end:
  "get_closest_waypoint_index (node route10 0 6) = Inr 0 \<and>
   nat (max (6 - int 0 - STOP_LINE_MARGIN) 0) = 2 \<and>
   distance route10 0 2 = Inr 2 \<and> distance route10 1 2 = Inr 1 \<and>
   (\<exists>out. generate_lane ip (node route10 0 6) = Inr out \<and> length out = 10 \<and>
      twist_linear_x (out ! 2) = 0 \<and>
      twist_linear_x (out ! 0) = sqrt 2 \<and>
      twist_linear_x (out ! 1) = 1 + CONSTANT_DECEL ip \<and>
      twist_linear_x (out ! 0) \<le> 5 \<and> twist_linear_x (out ! 1) \<le> 5 \<and>
      twist_linear_x (out ! 1) < twist_linear_x (out ! 0) \<and> 0 < twist_linear_x (out ! 1))"
proof -
  let ?s = "node route10 0 6"
  have c: "get_closest_waypoint_index ?s = Inr 0"
    by (rule closest_route10_0)
  have so: "stop_offset (stopline_wp_index ?s) 0 = 2"
    by (rule node_stop_offset_6)
  have d02: "distance route10 0 2 = Inr 2"
    using distance_ok[of 0 route10 2] by (simp add: route10_length chain_route10)
  have d12: "distance route10 1 2 = Inr 1"
    using distance_ok[of 1 route10 2] by (simp add: route10_length chain_route10)
  have g: "generate_lane ip ?s = decelerate_waypoints ip ?s route10 0"
    using generate_lane_brake[where s = ?s and ip = ip, OF c node_fields(1)]
    by (simp add: node_stopline LOOKAHEAD_WPS_def slice_route10_0)
  have "decelerate_waypoints ip ?s route10 0 = Inr (map (decelerated ip route10 2) [0..<length route10])"
    using decelerate_waypoints_ok[of ?s 0 route10 ip] by (simp add: so route10_length)
  with g have r: "generate_lane ip ?s = Inr (map (decelerated ip route10 2) [0..<length route10])"
    by simp
  let ?out = "map (decelerated ip route10 2) [0..<length route10]"
  have cd: "0 \<le> CONSTANT_DECEL ip" "CONSTANT_DECEL ip \<le> 1 / 100"
    by (rule constant_decel_bounds)+
  have base: "twist_linear_x (route10 ! 0) = 5" "twist_linear_x (route10 ! 1) = 5" "twist_linear_x (route10 ! 2) = 5"
    "twist_linear_x (route10 ! Suc 0) = 5"
    by (simp_all add: route10_def wp_at_def)
  have v0: "twist_linear_x (?out ! 0) = sqrt 2"
    using sqrt2_bounds
    by (simp add: route10_length decelerated_def profile_speed_def profile_velocity_def
        chain_route10 MAX_DECEL_def snap_def base)
  have v1: "twist_linear_x (?out ! 1) = 1 + CONSTANT_DECEL ip"
    using cd
    by (simp add: route10_length decelerated_def profile_speed_def profile_velocity_def
        chain_route10 MAX_DECEL_def snap_def base)
  have "profile_speed ip route10 2 (Suc (Suc 0)) = 0"
    by (rule profile_speed_zero) (simp_all add: LOOKAHEAD_WPS_def route10_def wp_at_def)
  then have v2: "twist_linear_x (?out ! 2) = 0"
    by (simp add: route10_length decelerated_def)
  have "twist_linear_x (?out ! 1) < twist_linear_x (?out ! 0)"
    using v0 v1 cd sqrt2_bounds by simp
  moreover have "twist_linear_x (?out ! 0) \<le> 5" "twist_linear_x (?out ! 1) \<le> 5" "0 < twist_linear_x (?out ! 1)"
    using v0 v1 cd sqrt2_bounds by simp_all
  moreover have "length ?out = 10"
    by (simp add: route10_length)
  moreover have "nat (max (6 - int 0 - STOP_LINE_MARGIN) 0) = 2"
    by (simp add: STOP_LINE_MARGIN_def)
  ultimately show ?thesis
    using c d02 d12 r v0 v1 v2 by blast
qed

theorem end_to_end_witness:
  "\<exists>out. generate_lane Python3 (node route10 0 6) = Inr out \<and> length out = 10 \<and>
     twist_linear_x (out ! 2) = 0 \<and> twist_linear_x (out ! 0) = sqrt 2 \<and>
     twist_linear_x (out ! 1) = 101 / 100"
  using end_to_end[of Python3]
  by (auto simp: CONSTANT_DECEL_def LOOKAHEAD_WPS_def)

section \<open>The frame of a tick\<close>

text \<open>
  C9. Frame. Over the store of waypoint objects, with the base lane a list of
  references to objects of the store: after a tick every object that was in the store is
  as it was, so the waypoints of the base route keep their poses and speeds, whether the
  tick returns a window or raises. The result read through the store is the result of the
  tick over waypoint values. In the deceleration branch each waypoint of the window is a
  new object (its reference is not a reference of the old store, nor of the base lane, and
  no two are the same), its pose is the pose of the input waypoint at the same local
  index, and its speed is the speed of the braking profile: the writes of the branch go to
  the new objects only.
\<close>

theorem planning_frame:
  assumes "get_closest_waypoint_index s = Inr c" "base_lane s = Some lane"
    and "\<forall>r \<in> set lane. r < length h"
    and "generate_lane_obj ip s h = (res, h')"
    and "slice = take LOOKAHEAD_WPS (drop c lane)"
  shows "take (length h) h' = h \<and> deref h' lane = deref h lane \<and>
         map_sum id (deref h') res = generate_lane ip (state_of h s) \<and>
         (stopline_wp_index s \<noteq> - 1 \<and> stopline_wp_index s < int (c + LOOKAHEAD_WPS) \<longrightarrow>
            (\<forall>out. res = Inr out \<longrightarrow>
               length out = length slice \<and> distinct out \<and>
               (\<forall>i < length out.
                  length h \<le> out ! i \<and> out ! i < length h' \<and> out ! i \<notin> set lane \<and>
                  wp_pose (h' ! (out ! i)) = wp_pose (h ! (slice ! i)) \<and>
                  twist_linear_x (h' ! (out ! i)) =
                    profile_speed ip (deref h slice) (stop_offset (stopline_wp_index s) c) i)))"
proof -
  let ?so = "stop_offset (stopline_wp_index s) c"
  let ?news = "map (decelerated ip (deref h slice) ?so) [0..<length slice]"
  note O = generate_lane_obj_eq[OF assms(1,2,3,5) refl, of ip]
  note V = generate_lane_state_of_eq[OF assms(1,2,5) refl, of ip h]
  consider (pass) "stopline_wp_index s = -1 \<or> int (c + LOOKAHEAD_WPS) \<le> stopline_wp_index s"
    | (empty) "\<not> (stopline_wp_index s = -1 \<or> int (c + LOOKAHEAD_WPS) \<le> stopline_wp_index s)" "slice = []"
    | (brake) "\<not> (stopline_wp_index s = -1 \<or> int (c + LOOKAHEAD_WPS) \<le> stopline_wp_index s)" "slice \<noteq> []"
        "?so < length slice"
    | (fail) "\<not> (stopline_wp_index s = -1 \<or> int (c + LOOKAHEAD_WPS) \<le> stopline_wp_index s)" "slice \<noteq> []"
        "\<not> ?so < length slice"
    by blast
  then show ?thesis
  proof cases
    case pass
    with O assms(4) have "res = Inr slice" "h' = h" by simp_all
    with pass V show ?thesis by auto
  next
    case empty
    with O assms(4) have "res = Inr []" "h' = h" by simp_all
    with empty V show ?thesis by (auto simp: deref_def)
  next
    case brake
    with O assms(4) have res: "res = Inr [length h..<length h + length slice]" and h': "h' = h @ ?news"
      by simp_all
    have d: "deref h' [length h..<length h + length slice] = ?news"
      unfolding h' using deref_fresh[of h ?news] by simp
    have lane: "deref h' lane = deref h lane"
      unfolding h' using assms(3) by (rule deref_append)
    have fresh: "length h + i \<notin> set lane" for i
      using assms(3) by auto
    have sn: "deref h slice ! i = h ! (slice ! i)" if "i < length slice" for i
      using that by (rule deref_nth)
    have el: "h' ! (length h + i) = decelerated ip (deref h slice) ?so i" if "i < length slice" for i
      unfolding h' using that by (simp add: nth_append)
    show ?thesis
      using brake V res d lane fresh
      by (auto simp: h' el sn decelerated_def)
  next
    case fail
    with O assms(4) have res: "res = Inl IndexError"
      and h': "h' = h @ [Waypoint\<lparr>wp_pose := wp_pose (h ! (slice ! 0))\<rparr>]"
      by simp_all
    have lane: "deref h' lane = deref h lane"
      unfolding h' using assms(3) by (rule deref_append)
    show ?thesis
      using fail V res lane by (auto simp: h')
  qed
qed

theorem planning_frame_witness:
  "generate_lane_obj Python3 (node_obj route10 [0..<10] 8 9) route10 =
     (Inr [10, 11], route10 @ [wp_at 8 0, wp_at 9 0]) \<and>
   take (length route10) (route10 @ [wp_at 8 0, wp_at 9 0]) = route10 \<and>
   deref (route10 @ [wp_at 8 0, wp_at 9 0]) [0..<10] = route10 \<and>
   length route10 \<le> [10, 11] ! 1 \<and>
   wp_pose ((route10 @ [wp_at 8 0, wp_at 9 0]) ! 11) = wp_pose (route10 ! 9) \<and>
   twist_linear_x ((route10 @ [wp_at 8 0, wp_at 9 0]) ! 11) = 0 \<and>
   twist_linear_x (route10 ! 9) = 5"
proof -
  let ?s = "node_obj route10 [0..<10] 8 9"
  let ?h' = "route10 @ [wp_at 8 0, wp_at 9 0]"
  have g: "generate_lane_obj Python3 ?s route10 = (Inr [10, 11], ?h')"
    by (rule brake_obj_route10_8)
  note T = planning_frame[OF closest_obj_route10_8 node_obj_fields(1) refs_route10 g slice_refs_8[symmetric]]
  from T have a: "take (length route10) ?h' = route10" and b: "deref ?h' [0..<10] = deref route10 [0..<10]"
    by blast+
  have br: "stopline_wp_index ?s \<noteq> - 1 \<and> stopline_wp_index ?s < int (8 + LOOKAHEAD_WPS)"
    by (simp add: node_obj_fields LOOKAHEAD_WPS_def)
  with T have "\<forall>i < length [10, 11 :: nat].
                  length route10 \<le> [10, 11] ! i \<and> [10, 11] ! i < length ?h' \<and> [10, 11] ! i \<notin> set [0..<10] \<and>
                  wp_pose (?h' ! ([10, 11] ! i)) = wp_pose (route10 ! ([8, 9] ! i)) \<and>
                  twist_linear_x (?h' ! ([10, 11] ! i)) =
                    profile_speed Python3 (deref route10 [8, 9]) (stop_offset (stopline_wp_index ?s) 8) i"
    by blast
  from this[rule_format, of 1]
  have c: "length route10 \<le> [10, 11] ! 1" and d: "wp_pose (?h' ! 11) = wp_pose (route10 ! 9)"
    by simp_all
  have e: "twist_linear_x (?h' ! 11) = 0" "twist_linear_x (route10 ! 9) = 5"
    by (simp_all add: nth_append route10_length route10_def wp_at_def)
  show ?thesis
    using g a b c d e by (simp add: deref_route10)
qed

section \<open>The route callback\<close>

text \<open>
  C3. Route set. \<^verbatim>\<open>waypoints_cb\<close> assigns \<^verbatim>\<open>self.base_lane\<close> on every call and builds the 2D
  position list and the spatial index only while there is no non-empty position list. So
  a second call with a different route is not without effect: it replaces the stored base
  route (the counterexample below). What holds is that, after a first call with a
  non-empty route, a second call keeps the position list and the spatial index of the
  first route and changes nothing but the stored base route, which becomes the second
  route.
\<close>

theorem route_set_once:
  assumes "not_waypoints_2d (waypoints_2d s0)" "route1 \<noteq> []"
    and "waypoints_cb s0 route1 = (s1, e1)"
  shows "e1 = None \<and> base_lane s1 = Some route1 \<and>
         waypoints_2d s1 = Some (map xy route1) \<and> waypoint_tree s1 = Some (Tree (map xy route1)) \<and>
         waypoints_cb s1 route2 = (s1\<lparr>base_lane := Some route2\<rparr>, None) \<and>
         waypoints_2d (fst (waypoints_cb s1 route2)) = Some (map xy route1) \<and>
         waypoint_tree (fst (waypoints_cb s1 route2)) = Some (Tree (map xy route1)) \<and>
         base_lane (fst (waypoints_cb s1 route2)) = Some route2"
proof -
  from assms have s1: "s1 = s0\<lparr>base_lane := Some route1, waypoints_2d := Some (map xy route1),
         waypoint_tree := Some (Tree (map xy route1))\<rparr>" and e1: "e1 = None"
    by (simp_all add: first_route)
  have w: "waypoints_2d s1 = Some (map xy route1)" and ne: "map xy route1 \<noteq> []"
    using assms(2) by (simp_all add: s1)
  have l: "waypoints_cb s1 route2 = (s1\<lparr>base_lane := Some route2\<rparr>, None)"
    using w ne by (rule later_route)
  show ?thesis
    using e1 l by (simp add: s1)
qed

theorem route_set_once_witness:
  "waypoints_cb (fst (waypoints_cb init route10)) [wp_at 7 3] =
     ((fst (waypoints_cb init route10))\<lparr>base_lane := Some [wp_at 7 3]\<rparr>, None) \<and>
   waypoints_2d (fst (waypoints_cb (fst (waypoints_cb init route10)) [wp_at 7 3])) = Some (map xy route10) \<and>
   waypoint_tree (fst (waypoints_cb (fst (waypoints_cb init route10)) [wp_at 7 3])) = Some (Tree (map xy route10))"
proof -
  have h1: "not_waypoints_2d (waypoints_2d (init :: waypoint updater))"
    by (simp add: init_def not_waypoints_2d_def)
  have h3: "waypoints_cb init route10 = (fst (waypoints_cb init route10), snd (waypoints_cb init route10))"
    by simp
  show ?thesis
    using route_set_once[OF h1 route10_nonempty h3, of "[wp_at 7 3]"] by simp
qed

theorem route_set_once_counterexample:
  "base_lane (fst (waypoints_cb init route10)) = Some route10 \<and>
   base_lane (fst (waypoints_cb (fst (waypoints_cb init route10)) [wp_at 7 3])) = Some [wp_at 7 3] \<and>
   route10 \<noteq> [wp_at 7 3] \<and>
   fst (waypoints_cb (fst (waypoints_cb init route10)) [wp_at 7 3]) \<noteq> fst (waypoints_cb init route10)"
proof -
  have h1: "not_waypoints_2d (waypoints_2d (init :: waypoint updater))"
    by (simp add: init_def not_waypoints_2d_def)
  have f: "waypoints_cb init route10 =
     (init\<lparr>base_lane := Some route10, waypoints_2d := Some (map xy route10),
         waypoint_tree := Some (Tree (map xy route10))\<rparr>, None)"
    using h1 route10_nonempty by (rule first_route)
  have l: "waypoints_cb (fst (waypoints_cb init route10)) [wp_at 7 3] =
     ((fst (waypoints_cb init route10))\<lparr>base_lane := Some [wp_at 7 3]\<rparr>, None)"
    by (rule later_route[of _ "map xy route10"]) (simp_all add: f route10_nonempty)
  have ne: "route10 \<noteq> [wp_at 7 3]"
    by (simp add: route10_def)
  have a: "base_lane (fst (waypoints_cb init route10)) = Some route10"
    by (simp add: f)
  have b: "base_lane (fst (waypoints_cb (fst (waypoints_cb init route10)) [wp_at 7 3])) = Some [wp_at 7 3]"
    by (simp add: l)
  from a b ne have "fst (waypoints_cb (fst (waypoints_cb init route10)) [wp_at 7 3]) \<noteq> fst (waypoints_cb init route10)"
    by (metis option.inject)
  with a b ne show ?thesis by blast
qed

end
